theory Spec2Isabelle
  imports Complex_Main "HOL-Library.Multiset" "HOL-Library.AList"
begin

section \<open>Python values, errors and effects\<close>

text \<open>
  The checkpoint callbacks of \<^verbatim>\<open>fastNLP/core/callbacks/checkpoint_callback.py\<close> and the
  collator access of \<^verbatim>\<open>fastNLP/core/dataloaders/jittor_dataloader/fdl.py\<close> are embedded
  as functions on explicit state. An exception is a value \<open>Inl e\<close>; what a method
  does to the disk, to the trainer and to the log is the list of effects it returns.
\<close>

datatype error =
    ValueError
  | TypeError
  | NotADirectoryError
  | KeyError string
  | AssertionError
  | ZeroDivisionError

text \<open>
  A metric value is a plain number or an object with an \<^verbatim>\<open>item()\<close> method (what
  \<^verbatim>\<open>CanItemDataType\<close> recognises) that wraps one. Numbers are any linear order:
  Python's floats without NaN, or its integers.
\<close>

datatype 'v metric = Plain 'v | Item 'v

fun val_of :: "'v metric \<Rightarrow> 'v" where
  "val_of (Plain v) = v"
| "val_of (Item v) = v"

text \<open>\<^verbatim>\<open>x.item()\<close>, and \<^verbatim>\<open>isinstance(x, CanItemDataType)\<close>.\<close>

fun item :: "'v metric \<Rightarrow> 'v metric" where
  "item (Plain v) = Plain v"
| "item (Item v) = Plain v"

fun can_item :: "'v metric \<Rightarrow> bool" where
  "can_item (Plain v) = False"
| "can_item (Item v) = True"

text \<open>
  A Python dict is an association list in insertion order with distinct keys:
  \<^verbatim>\<open>d[k] = v\<close> is \<^const>\<open>AList.update\<close> (the position of an existing key is kept, a new
  key goes last), \<^verbatim>\<open>d.pop(k)\<close> is \<^const>\<open>AList.delete\<close>, \<^verbatim>\<open>d[k]\<close> raises KeyError
  on a missing key.
\<close>

type_synonym ('k, 'a) dict = "('k \<times> 'a) list"

definition getitem :: "(string, 'a) dict \<Rightarrow> string \<Rightarrow> error + 'a" where
  "getitem d k = (case map_of d k of None \<Rightarrow> Inl (KeyError k) | Some v \<Rightarrow> Inr v)"

text \<open>The values a state mapping of the callback holds.\<close>

datatype 'v pyval =
    VNone
  | VStr string
  | VInt int
  | VDict "(string, 'v metric) dict"

text \<open>
  Classes are a name and the chain of their bases (single inheritance), which is all
  \<^verbatim>\<open>issubclass\<close>, \<^verbatim>\<open>__class__\<close> and \<^verbatim>\<open>__name__\<close> need. Equality of classes is equality
  of these terms.
\<close>

datatype pyclass = PyClass string "pyclass option"

fun class_name :: "pyclass \<Rightarrow> string" where
  "class_name (PyClass n b) = n"

fun issubclass :: "pyclass \<Rightarrow> pyclass \<Rightarrow> bool" where
  "issubclass (PyClass n None) d = (PyClass n None = d)"
| "issubclass (PyClass n (Some b)) d = (PyClass n (Some b) = d \<or> issubclass b d)"

definition object_cls :: pyclass where
  "object_cls = PyClass ''object'' None"

definition BaseException_cls :: pyclass where
  "BaseException_cls = PyClass ''BaseException'' (Some object_cls)"

definition Exception_cls :: pyclass where
  "Exception_cls = PyClass ''Exception'' (Some BaseException_cls)"

definition LookupError_cls :: pyclass where
  "LookupError_cls = PyClass ''LookupError'' (Some Exception_cls)"

definition KeyError_cls :: pyclass where
  "KeyError_cls = PyClass ''KeyError'' (Some LookupError_cls)"

definition TypeError_cls :: pyclass where
  "TypeError_cls = PyClass ''TypeError'' (Some Exception_cls)"

text \<open>What a method does outside the callback object.\<close>

datatype effect =
    Mkdir string
  | Rm string
  | SaveCall string string
  | LogInfo
  | LogWarning

subsection \<open>Paths and formatting\<close>

text \<open>
  Paths are POSIX path strings. \<^verbatim>\<open>Path.joinpath\<close> and \<^verbatim>\<open>Path.absolute\<close> are modelled on
  strings that are already normalised (no doubled or trailing separators to remove).
\<close>

definition is_absolute :: "string \<Rightarrow> bool" where
  "is_absolute p = (case p of [] \<Rightarrow> False | c # cs \<Rightarrow> c = CHR ''/'')"

definition joinpath :: "string \<Rightarrow> string \<Rightarrow> string" where
  "joinpath a b =
     (if is_absolute b then b
      else if a = [] then b
      else if last a = CHR ''/'' then a @ b
      else a @ ''/'' @ b)"

definition absolute :: "string \<Rightarrow> string \<Rightarrow> string" where
  "absolute cwd p = (if is_absolute p then p else joinpath cwd p)"

text \<open>The decimal text an f-string gives an \<^verbatim>\<open>int\<close>.\<close>

definition digit_char :: "nat \<Rightarrow> char" where
  "digit_char d = ''0123456789'' ! d"

function str_nat :: "nat \<Rightarrow> string" where
  "str_nat n = (if n < 10 then [digit_char n] else str_nat (n div 10) @ [digit_char (n mod 10)])"
  by pat_completeness auto
termination
  by (relation "measure id") auto

definition str_int :: "int \<Rightarrow> string" where
  "str_int i = (if i < 0 then CHR ''-'' # str_nat (nat (- i)) else str_nat (nat i))"

text \<open>
  \<^verbatim>\<open>a % b\<close> on Python integers: the sign follows the divisor, as HOL's \<open>mod\<close> on
  \<open>int\<close> does, and a zero divisor raises.
\<close>

definition py_mod :: "int \<Rightarrow> int \<Rightarrow> error + int" where
  "py_mod a b = (if b = 0 then Inl ZeroDivisionError else Inr (a mod b))"

text \<open>\<^verbatim>\<open>sys.maxsize\<close> of a 64-bit CPython.\<close>

definition sys_maxsize :: int where
  "sys_maxsize = 2 ^ 63 - 1"


section \<open>The checkpoint callback\<close>

text \<open>
  The two concrete classes differ in \<^verbatim>\<open>folder_prefix\<close> and \<^verbatim>\<open>save_fn_name\<close> only.
\<close>

datatype variant = ModelCheckpointCallback | TrainerCheckpointCallback

fun folder_prefix :: "variant \<Rightarrow> string" where
  "folder_prefix ModelCheckpointCallback = ''model''"
| "folder_prefix TrainerCheckpointCallback = ''trainer''"

fun save_fn_name :: "variant \<Rightarrow> string" where
  "save_fn_name ModelCheckpointCallback = ''save_model''"
| "save_fn_name TrainerCheckpointCallback = ''save''"

text \<open>The attributes \<^verbatim>\<open>__init__\<close> sets (the payload options of the save call left out).\<close>

record 'v checkpoint_callback =
  variant :: variant
  monitor :: "string option"
  save_folder :: string
  save_every_n_epochs :: int
  save_every_n_batches :: int
  save_last :: bool
  save_topk :: "int option"
  larger_better :: bool
  save_on_exception :: "pyclass list"
  topk_model :: "(string, 'v metric) dict"
  topn :: int
  real_monitor :: "'v pyval"
  timestamp_path :: string

text \<open>The counters of the trainer that the callback reads.\<close>

record trainer =
  cur_epoch_idx :: int
  global_forward_batches :: int

text \<open>
  The process environment: the working directory, \<^verbatim>\<open>os.environ[FASTNLP_LAUNCH_TIME]\<close>,
  and what is on disk.
\<close>

record env =
  cwd :: string
  launch_time :: string
  path_exists :: "string \<Rightarrow> bool"
  path_is_file :: "string \<Rightarrow> bool"

text \<open>The arguments of \<^verbatim>\<open>__init__\<close>, with the types its signature gives them.\<close>

datatype exception_arg = NoException | OneClass pyclass | ClassSeq "pyclass list"

record config =
  cfg_variant :: variant
  cfg_monitor :: "string option"
  cfg_save_folder :: "string option"
  cfg_save_every_n_epochs :: "int option"
  cfg_save_every_n_batches :: "int option"
  cfg_save_last :: bool
  cfg_save_topk :: "int option"
  cfg_save_on_exception :: exception_arg
  cfg_larger_better :: bool

definition exception_list :: "exception_arg \<Rightarrow> error + pyclass list" where
  "exception_list a =
     (case a of
        NoException \<Rightarrow> Inr []
      | OneClass c \<Rightarrow> (if issubclass c BaseException_cls then Inr [c] else Inl TypeError)
      | ClassSeq cs \<Rightarrow> (if list_all (\<lambda>c. issubclass c BaseException_cls) cs then Inr cs
                        else Inl TypeError))"

definition init :: "env \<Rightarrow> config \<Rightarrow> error + ('v checkpoint_callback \<times> effect list)" where
  "init e c =
     (if cfg_monitor c = None \<and> cfg_save_topk c \<noteq> None then Inl ValueError
      else
        let (folder, warn) =
              (case cfg_save_folder c of None \<Rightarrow> (cwd e, [LogWarning]) | Some f \<Rightarrow> (f, []))
        in if \<not> path_exists e folder then Inl NotADirectoryError
           else if path_is_file e folder then Inl ValueError
           else if (case cfg_save_every_n_epochs c of None \<Rightarrow> False | Some n \<Rightarrow> n < 1)
             then Inl ValueError
           else if (case cfg_save_every_n_batches c of None \<Rightarrow> False | Some n \<Rightarrow> n < 1)
             then Inl ValueError
           else if (case cfg_save_topk c of None \<Rightarrow> False | Some n \<Rightarrow> n < 1)
             then Inl ValueError
           else
             (case exception_list (cfg_save_on_exception c) of
                Inl err \<Rightarrow> Inl err
              | Inr excs \<Rightarrow>
                  let ts = joinpath folder (launch_time e)
                  in Inr (\<lparr> variant = cfg_variant c,
                            monitor = cfg_monitor c,
                            save_folder = folder,
                            save_every_n_epochs =
                              (case cfg_save_every_n_epochs c of None \<Rightarrow> sys_maxsize | Some n \<Rightarrow> n),
                            save_every_n_batches =
                              (case cfg_save_every_n_batches c of None \<Rightarrow> sys_maxsize | Some n \<Rightarrow> n),
                            save_last = cfg_save_last c,
                            save_topk = cfg_save_topk c,
                            larger_better = cfg_larger_better c,
                            save_on_exception = excs,
                            topk_model = [],
                            topn = 0,
                            real_monitor =
                              (case cfg_monitor c of None \<Rightarrow> VNone | Some m \<Rightarrow> VStr m),
                            timestamp_path = ts \<rparr>,
                          warn @ [Mkdir ts])))"

subsection \<open>Saving\<close>

text \<open>
  \<^verbatim>\<open>save\<close> creates the folder under the run directory and calls the trainer's save
  method named by \<^verbatim>\<open>save_fn_name\<close> on it.
\<close>

definition save :: "'v checkpoint_callback \<Rightarrow> string \<Rightarrow> effect list" where
  "save cb folder_name =
     (let folder = joinpath (timestamp_path cb) folder_name
      in [Mkdir folder, SaveCall (save_fn_name (variant cb)) folder])"

definition epoch_folder :: "'v checkpoint_callback \<Rightarrow> trainer \<Rightarrow> string" where
  "epoch_folder cb tr = folder_prefix (variant cb) @ ''-epoch_'' @ str_int (cur_epoch_idx tr)"

definition last_folder :: "'v checkpoint_callback \<Rightarrow> string" where
  "last_folder cb = folder_prefix (variant cb) @ ''-last''"

definition batch_folder :: "'v checkpoint_callback \<Rightarrow> trainer \<Rightarrow> string" where
  "batch_folder cb tr =
     folder_prefix (variant cb) @ ''-epoch_'' @ str_int (cur_epoch_idx tr)
       @ ''-batch_'' @ str_int (global_forward_batches tr)"

definition exception_folder :: "'v checkpoint_callback \<Rightarrow> trainer \<Rightarrow> pyclass \<Rightarrow> string" where
  "exception_folder cb tr cls = batch_folder cb tr @ ''-exception_'' @ class_name cls"

subsection \<open>The scheduler\<close>

definition on_train_epoch_end :: "'v checkpoint_callback \<Rightarrow> trainer \<Rightarrow> error + effect list" where
  "on_train_epoch_end cb tr =
     (case py_mod (cur_epoch_idx tr) (save_every_n_epochs cb) of
        Inl err \<Rightarrow> Inl err
      | Inr r \<Rightarrow>
          Inr ((if r = 0 then save cb (epoch_folder cb tr) else [])
               @ (if save_last cb then save cb (last_folder cb) else [])))"

definition on_train_batch_end :: "'v checkpoint_callback \<Rightarrow> trainer \<Rightarrow> error + effect list" where
  "on_train_batch_end cb tr =
     (case py_mod (global_forward_batches tr) (save_every_n_batches cb) of
        Inl err \<Rightarrow> Inl err
      | Inr r \<Rightarrow> Inr (if r = 0 then save cb (batch_folder cb tr) else []))"

text \<open>
  \<^verbatim>\<open>exception.__class__ in self.save_on_exception\<close>: membership in a list compares the
  classes for equality.
\<close>

definition on_exception :: "'v checkpoint_callback \<Rightarrow> trainer \<Rightarrow> pyclass \<Rightarrow> effect list" where
  "on_exception cb tr cls =
     (if cls \<in> set (save_on_exception cb) then save cb (exception_folder cb tr cls) else [])"

subsection \<open>Top-k retention\<close>

text \<open>
  \<^verbatim>\<open>_get_validate_metric\<close> calls \<^verbatim>\<open>_get_monitor_value\<close> of
  \<^verbatim>\<open>fastNLP.core.callbacks.utils\<close>, which is not among the sources: the pair
  \<open>(use_monitor, value)\<close> it returns for a validation result is the argument \<open>res\<close>
  here. The method pins the key and hands back the value.
\<close>

definition get_validate_metric ::
  "'v checkpoint_callback \<Rightarrow> string \<times> 'v metric \<Rightarrow> 'v checkpoint_callback \<times> 'v metric" where
  "get_validate_metric cb res = (cb\<lparr>real_monitor := VStr (fst res)\<rparr>, snd res)"

text \<open>
  Python's \<^verbatim>\<open>min(xs, key=f)\<close> and \<^verbatim>\<open>max(xs, key=f)\<close> keep the first extreme element
  they meet: the running best is replaced on a strict comparison only. Both raise
  ValueError on an empty argument.
\<close>

fun first_min :: "('a \<Rightarrow> 'v::linorder) \<Rightarrow> 'a \<Rightarrow> 'a list \<Rightarrow> 'a" where
  "first_min key best [] = best"
| "first_min key best (x # xs) = first_min key (if key x < key best then x else best) xs"

fun first_max :: "('a \<Rightarrow> 'v::linorder) \<Rightarrow> 'a \<Rightarrow> 'a list \<Rightarrow> 'a" where
  "first_max key best [] = best"
| "first_max key best (x # xs) = first_max key (if key best < key x then x else best) xs"

definition py_min :: "('a \<Rightarrow> 'v::linorder) \<Rightarrow> 'a list \<Rightarrow> error + 'a" where
  "py_min key xs = (case xs of [] \<Rightarrow> Inl ValueError | x # rest \<Rightarrow> Inr (first_min key x rest))"

definition py_max :: "('a \<Rightarrow> 'v::linorder) \<Rightarrow> 'a list \<Rightarrow> error + 'a" where
  "py_max key xs = (case xs of [] \<Rightarrow> Inl ValueError | x # rest \<Rightarrow> Inr (first_max key x rest))"

text \<open>
  \<^verbatim>\<open>(min if self.larger_better else max)(self._topk_model, key=lambda x: self._topk_model[x])\<close>:
  the scan goes over the keys in insertion order and compares the values stored under
  them, which on an association list with distinct keys is a scan of the entries.
\<close>

definition least_valuable_model ::
  "bool \<Rightarrow> (string, 'v::linorder metric) dict \<Rightarrow> error + string" where
  "least_valuable_model lb d =
     (case (if lb then py_min else py_max) (\<lambda>kv. val_of (snd kv)) d of
        Inl err \<Rightarrow> Inl err
      | Inr kv \<Rightarrow> Inr (fst kv))"

text \<open>
  The folder of a top-k save. \<open>fmt\<close> is the text an f-string gives the metric value
  (Python's formatting of a float or a tensor, a parameter of the model).
\<close>

definition topk_folder ::
  "('v metric \<Rightarrow> string) \<Rightarrow> 'v checkpoint_callback \<Rightarrow> trainer \<Rightarrow> string \<Rightarrow> 'v metric \<Rightarrow> string" where
  "topk_folder fmt cb tr mon v = batch_folder cb tr @ ''-'' @ mon @ ''_'' @ fmt v"

text \<open>
  \<^verbatim>\<open>_save_topk\<close>. In the folder name \<^verbatim>\<open>self._real_monitor\<close> is the key that
  \<^verbatim>\<open>_get_validate_metric\<close> has just pinned, \<open>fst res\<close>. The \<^verbatim>\<open>assert\<close> stands after
  the mutation and before the save, in the branch of a full set only.
\<close>

definition do_save_topk ::
  "('v::linorder metric \<Rightarrow> string) \<Rightarrow> 'v checkpoint_callback \<Rightarrow> trainer \<Rightarrow> string \<times> 'v metric
     \<Rightarrow> error + ('v checkpoint_callback \<times> effect list)" where
  "do_save_topk fmt cb tr res =
     (case save_topk cb of
        None \<Rightarrow> Inr (cb, [])
      | Some k \<Rightarrow>
          let (cb1, metric_value) = get_validate_metric cb res;
              folder_name = topk_folder fmt cb1 tr (fst res) metric_value
          in if topn cb1 < k then
               let cb2 = cb1\<lparr>topk_model := AList.update folder_name metric_value (topk_model cb1),
                              topn := topn cb1 + 1\<rparr>
               in Inr (cb2, save cb2 folder_name)
             else
               (case least_valuable_model (larger_better cb1) (topk_model cb1) of
                  Inl err \<Rightarrow> Inl err
                | Inr lv \<Rightarrow>
                    (case getitem (topk_model cb1) lv of
                       Inl err \<Rightarrow> Inl err
                     | Inr lv_value \<Rightarrow>
                         let better =
                               ((larger_better cb1 \<and> val_of lv_value < val_of metric_value)
                                \<or> (\<not> larger_better cb1 \<and> val_of metric_value < val_of lv_value));
                             cb2 =
                               (if better
                                then cb1\<lparr>topk_model :=
                                       AList.delete lv
                                         (AList.update folder_name metric_value (topk_model cb1))\<rparr>
                                else cb1);
                             rm = (if better then [Rm (joinpath (timestamp_path cb1) lv)] else [])
                         in if int (length (topk_model cb2)) = k \<and> k = topn cb2
                            then Inr (cb2, rm @ (if better then save cb2 folder_name else []))
                            else Inl AssertionError)))"

definition on_validate_end ::
  "('v::linorder metric \<Rightarrow> string) \<Rightarrow> 'v checkpoint_callback \<Rightarrow> trainer \<Rightarrow> string \<times> 'v metric
     \<Rightarrow> error + ('v checkpoint_callback \<times> effect list)" where
  "on_validate_end fmt cb tr validate_res = do_save_topk fmt cb tr validate_res"

text \<open>
  A run of validations: each carries the trainer's counters at that moment and the
  resolved metric. An exception ends the run.
\<close>

fun validate_all ::
  "('v::linorder metric \<Rightarrow> string) \<Rightarrow> 'v checkpoint_callback \<Rightarrow> (trainer \<times> string \<times> 'v metric) list
     \<Rightarrow> error + ('v checkpoint_callback \<times> effect list)" where
  "validate_all fmt cb [] = Inr (cb, [])"
| "validate_all fmt cb (c # cs) =
     (case on_validate_end fmt cb (fst c) (snd c) of
        Inl err \<Rightarrow> Inl err
      | Inr (cb1, ops1) \<Rightarrow>
          (case validate_all fmt cb1 cs of
             Inl err \<Rightarrow> Inl err
           | Inr (cb2, ops2) \<Rightarrow> Inr (cb2, ops1 @ ops2)))"

text \<open>The folder name a validation is saved under, and its metric as a number.\<close>

definition candidate_folder ::
  "('v metric \<Rightarrow> string) \<Rightarrow> variant \<Rightarrow> trainer \<times> string \<times> 'v metric \<Rightarrow> string" where
  "candidate_folder fmt v c =
     folder_prefix v @ ''-epoch_'' @ str_int (cur_epoch_idx (fst c))
       @ ''-batch_'' @ str_int (global_forward_batches (fst c))
       @ ''-'' @ fst (snd c) @ ''_'' @ fmt (snd (snd c))"

definition candidate_value :: "trainer \<times> string \<times> 'v metric \<Rightarrow> 'v" where
  "candidate_value c = val_of (snd (snd c))"

text \<open>Admissions are the save calls among the effects, evictions the removals.\<close>

fun is_save :: "effect \<Rightarrow> bool" where
  "is_save (SaveCall f p) = True"
| "is_save _ = False"

fun is_rm :: "effect \<Rightarrow> bool" where
  "is_rm (Rm p) = True"
| "is_rm _ = False"

definition admissions :: "effect list \<Rightarrow> nat" where
  "admissions ops = length (filter is_save ops)"

definition evictions :: "effect list \<Rightarrow> nat" where
  "evictions ops = length (filter is_rm ops)"

text \<open>The \<open>k\<close> largest of a list of numbers, as a multiset.\<close>

definition largest :: "nat \<Rightarrow> 'v::linorder list \<Rightarrow> 'v multiset" where
  "largest k vs = mset (drop (length vs - k) (sort vs))"

text \<open>
  The state of the retention set after the values \<open>seen\<close> have been considered with
  width \<open>k\<close>: the keys are distinct, \<^verbatim>\<open>_topn\<close> is the size of the mapping, the size is
  \<open>min k (length seen)\<close>, and when larger is better the retained values are the \<open>k\<close>
  largest of the values seen.
\<close>

definition retention_inv :: "int \<Rightarrow> 'v::linorder checkpoint_callback \<Rightarrow> 'v list \<Rightarrow> bool" where
  "retention_inv k cb seen =
     (save_topk cb = Some k \<and> 1 \<le> k
      \<and> distinct (map fst (topk_model cb))
      \<and> topn cb = int (length (topk_model cb))
      \<and> length (topk_model cb) = min (nat k) (length seen)
      \<and> (larger_better cb \<longrightarrow>
           mset (map (\<lambda>kv. val_of (snd kv)) (topk_model cb)) = largest (nat k) seen))"

subsection \<open>The resumable state\<close>

text \<open>
  Modelled from the spec: \<^verbatim>\<open>apply_to_collection\<close> of \<^verbatim>\<open>fastNLP.core.utils\<close> is not among
  the sources. On a mapping it keeps the keys and replaces each value of the given
  type by the function's result (``retention set contents, with any item-convertible
  values unwrapped to plain numbers'').
\<close>

definition apply_to_collection ::
  "(string, 'v metric) dict \<Rightarrow> ('v metric \<Rightarrow> bool) \<Rightarrow> ('v metric \<Rightarrow> 'v metric)
     \<Rightarrow> (string, 'v metric) dict" where
  "apply_to_collection d is_dtype f = map (\<lambda>(k, v). (k, if is_dtype v then f v else v)) d"

definition on_save_checkpoint ::
  "env \<Rightarrow> 'v checkpoint_callback \<Rightarrow> (string, 'v pyval) dict" where
  "on_save_checkpoint e cb =
     (let states = [];
          states = AList.update ''timestamp_path''
                     (VStr (absolute (cwd e) (timestamp_path cb))) states;
          states = AList.update ''_topk_model''
                     (VDict (apply_to_collection (topk_model cb) can_item item)) states;
          states = AList.update ''save_topk''
                     (VInt (case save_topk cb of None \<Rightarrow> 0 | Some k \<Rightarrow> k)) states;
          states = AList.update ''_real_monitor'' (real_monitor cb) states
      in states)"

text \<open>
  \<^verbatim>\<open>int(x)\<close> on a stored value. An integer is returned as it is. A string is read as
  Python reads decimal text: surrounding whitespace is dropped, a sign may come first,
  then digits follow, where single underscores may stand between digits; any other
  text raises ValueError. (Digits are the ASCII digits.) \<^verbatim>\<open>None\<close> and a mapping raise
  TypeError.
\<close>

definition is_space :: "char \<Rightarrow> bool" where
  "is_space c = (c \<in> set [CHR '' '', CHR 0x09, CHR 0x0A, CHR 0x0B, CHR 0x0C, CHR 0x0D])"

definition strip :: "string \<Rightarrow> string" where
  "strip s = rev (dropWhile is_space (rev (dropWhile is_space s)))"

definition digit_of :: "char \<Rightarrow> nat option" where
  "digit_of c =
     map_of [(CHR ''0'', 0), (CHR ''1'', 1), (CHR ''2'', 2), (CHR ''3'', 3), (CHR ''4'', 4),
             (CHR ''5'', 5), (CHR ''6'', 6), (CHR ''7'', 7), (CHR ''8'', 8), (CHR ''9'', 9)] c"

fun digits_value :: "nat \<Rightarrow> string \<Rightarrow> nat option" where
  "digits_value acc [] = Some acc"
| "digits_value acc [c] =
     (case digit_of c of None \<Rightarrow> None | Some d \<Rightarrow> Some (10 * acc + d))"
| "digits_value acc (c # c' # cs) =
     (if c = CHR ''_''
      then (case digit_of c' of None \<Rightarrow> None | Some d \<Rightarrow> digits_value (10 * acc + d) cs)
      else (case digit_of c of
              None \<Rightarrow> None
            | Some d \<Rightarrow> digits_value (10 * acc + d) (c' # cs)))"

definition parse_int :: "string \<Rightarrow> int option" where
  "parse_int s =
     (let t = strip s;
          (neg, body) =
            (case t of
               [] \<Rightarrow> (False, [])
             | c # cs \<Rightarrow>
                 if c = CHR ''-'' then (True, cs)
                 else if c = CHR ''+'' then (False, cs)
                 else (False, t))
      in case body of
           [] \<Rightarrow> None
         | c # cs \<Rightarrow>
             (case digit_of c of
                None \<Rightarrow> None
              | Some d \<Rightarrow>
                  (case digits_value d cs of
                     None \<Rightarrow> None
                   | Some n \<Rightarrow> Some (if neg then - int n else int n))))"

fun py_int :: "'v pyval \<Rightarrow> error + int" where
  "py_int (VInt n) = Inr n"
| "py_int (VStr s) = (case parse_int s of None \<Rightarrow> Inl ValueError | Some n \<Rightarrow> Inr n)"
| "py_int VNone = Inl TypeError"
| "py_int (VDict d) = Inl TypeError"

text \<open>\<^verbatim>\<open>d.update(other)\<close>: every entry of \<open>other\<close> is stored in \<open>d\<close>, in order.\<close>

definition dict_update :: "('k, 'a) dict \<Rightarrow> ('k, 'a) dict \<Rightarrow> ('k, 'a) dict" where
  "dict_update d other = foldl (\<lambda>acc kv. AList.update (fst kv) (snd kv) acc) d other"

text \<open>
  \<^verbatim>\<open>on_load_checkpoint\<close>. The recorded path is a string (the model raises TypeError
  for any other value). In the branch of an existing directory the source reads
  \<^verbatim>\<open>states['_topk_model']\<close> into a local variable, compares the two widths when both
  are set, and then calls \<^verbatim>\<open>self._topk_model.update(self._topk_model)\<close>; after both
  branches it reads \<^verbatim>\<open>states["real_monitor"]\<close>.
\<close>

definition on_load_checkpoint ::
  "env \<Rightarrow> 'v checkpoint_callback \<Rightarrow> (string, 'v pyval) dict
     \<Rightarrow> error + ('v checkpoint_callback \<times> effect list)" where
  "on_load_checkpoint e cb states =
     (case getitem states ''timestamp_path'' of
        Inl err \<Rightarrow> Inl err
      | Inr (VStr ts) \<Rightarrow>
          (case
             (if \<not> path_exists e ts then Inr (cb, [LogInfo])
              else
                let cb1 = cb\<lparr>timestamp_path := ts\<rparr>
                in (case getitem states ''_topk_model'' of
                      Inl err \<Rightarrow> Inl err
                    | Inr topk_model' \<Rightarrow>
                        (case getitem states ''save_topk'' of
                           Inl err \<Rightarrow> Inl err
                         | Inr kv \<Rightarrow>
                             (case py_int kv of
                                Inl err \<Rightarrow> Inl err
                              | Inr n \<Rightarrow>
                                  let save_topk' = (if n = 0 then None else Some n)
                                  in if (case (save_topk', save_topk cb1) of
                                           (Some a, Some b) \<Rightarrow> b \<noteq> a
                                         | _ \<Rightarrow> False)
                                     then Inl AssertionError
                                     else Inr (cb1\<lparr>topk_model :=
                                                 dict_update (topk_model cb1) (topk_model cb1)\<rparr>,
                                               [LogInfo])))))
           of
             Inl err \<Rightarrow> Inl err
           | Inr (cb2, ops) \<Rightarrow>
               (case getitem states ''real_monitor'' of
                  Inl err \<Rightarrow> Inl err
                | Inr m \<Rightarrow> Inr (cb2\<lparr>real_monitor := m\<rparr>, ops)))
      | Inr _ \<Rightarrow> Inl TypeError)"


section \<open>The Jittor dataloader's collator\<close>

text \<open>
  A \<^verbatim>\<open>collate_fn\<close> is an object of which two things are read: whether it is an
  instance of \<^verbatim>\<open>Collator\<close> (then with the collator's state \<open>'c\<close>), and its
  \<^verbatim>\<open>__wrapped__\<close> attribute, if it has one.
\<close>

datatype 'c fnobj = FnObj (collator_of: "'c option") (wrapped: "'c fnobj option")

text \<open>\<^verbatim>\<open>jittor.dataset.utils.collate_batch\<close>: a plain function.\<close>

definition collate_batch :: "'c fnobj" where
  "collate_batch = FnObj None None"

record 'c jittor_dataloader =
  collate_fn :: "'c fnobj"
  cur_batch_indices :: "int list option"

text \<open>
  The \<^verbatim>\<open>collate_fn\<close> argument of \<^verbatim>\<open>__init__\<close>: a string, a callable or \<^verbatim>\<open>None\<close>. Of the
  dataset the constructor reads whether it is a fastNLP \<^verbatim>\<open>DataSet\<close>, and then its
  \<^verbatim>\<open>collator\<close>. \<open>new_collator\<close> is \<^verbatim>\<open>Collator(backend="jittor")\<close> and \<open>set_backend\<close> is
  \<^verbatim>\<open>Collator.set_backend(backend="jittor")\<close>, both of \<^verbatim>\<open>fastNLP.core.collators\<close>.
\<close>

datatype 'c collate_arg = ArgStr string | ArgCallable "'c fnobj" | ArgNone

definition dataloader_init ::
  "'c \<Rightarrow> ('c \<Rightarrow> 'c) \<Rightarrow> 'c option \<Rightarrow> 'c collate_arg \<Rightarrow> error + 'c jittor_dataloader" where
  "dataloader_init new_collator set_backend fdataset_collator arg =
     (if fdataset_collator \<noteq> None \<and> arg = ArgNone then Inl ValueError
      else
        (case arg of
           ArgStr s \<Rightarrow>
             (if s = ''auto'' then
                (case fdataset_collator of
                   Some c \<Rightarrow>
                     Inr \<lparr>collate_fn = FnObj (Some (set_backend c)) None, cur_batch_indices = None\<rparr>
                 | None \<Rightarrow>
                     Inr \<lparr>collate_fn = FnObj (Some new_collator) None, cur_batch_indices = None\<rparr>)
              else Inl ValueError)
         | ArgCallable f \<Rightarrow> Inr \<lparr>collate_fn = f, cur_batch_indices = None\<rparr>
         | ArgNone \<Rightarrow> Inr \<lparr>collate_fn = collate_batch, cur_batch_indices = None\<rparr>))"

text \<open>\<^verbatim>\<open>_get_collator\<close>: the wrapped object first, then the object itself.\<close>

definition get_collator :: "'c jittor_dataloader \<Rightarrow> 'c option" where
  "get_collator dl =
     (case wrapped (collate_fn dl) of
        Some w \<Rightarrow>
          (case collator_of w of
             Some c \<Rightarrow> Some c
           | None \<Rightarrow> collator_of (collate_fn dl))
      | None \<Rightarrow> collator_of (collate_fn dl))"

text \<open>
  The collator that \<^verbatim>\<open>_get_collator\<close> returns is the object inside the dataloader, and
  the collator's method changes it in place: \<open>put_collator\<close> writes the changed
  collator back where \<^const>\<open>get_collator\<close> found it.
\<close>

definition put_collator :: "'c jittor_dataloader \<Rightarrow> 'c \<Rightarrow> 'c jittor_dataloader" where
  "put_collator dl c' =
     (case collate_fn dl of
        FnObj self_c None \<Rightarrow> dl\<lparr>collate_fn := FnObj (Some c') None\<rparr>
      | FnObj self_c (Some (FnObj None ww)) \<Rightarrow> dl\<lparr>collate_fn := FnObj (Some c') (Some (FnObj None ww))\<rparr>
      | FnObj self_c (Some (FnObj (Some c) ww)) \<Rightarrow>
          dl\<lparr>collate_fn := FnObj self_c (Some (FnObj (Some c') ww))\<rparr>)"

text \<open>
  \<^verbatim>\<open>set_pad\<close> and \<^verbatim>\<open>set_ignore\<close>. The methods of \<^verbatim>\<open>Collator\<close> that they call are
  parameters: given the arguments and the collator, such a method leaves the collator
  in a new state and returns or raises.
\<close>

definition set_pad ::
  "('a \<Rightarrow> 'c \<Rightarrow> error option \<times> 'c) \<Rightarrow> 'c jittor_dataloader \<Rightarrow> 'a
     \<Rightarrow> (error + 'c) \<times> 'c jittor_dataloader" where
  "set_pad collator_set_pad dl args =
     (case get_collator dl of
        Some collator \<Rightarrow>
          (case collator_set_pad args collator of
             (None, c') \<Rightarrow> (Inr c', put_collator dl c')
           | (Some err, c') \<Rightarrow> (Inl err, put_collator dl c'))
      | None \<Rightarrow> (Inl ValueError, dl))"

definition set_ignore ::
  "('a \<Rightarrow> 'c \<Rightarrow> error option \<times> 'c) \<Rightarrow> 'c jittor_dataloader \<Rightarrow> 'a
     \<Rightarrow> (error + 'c) \<times> 'c jittor_dataloader" where
  "set_ignore collator_set_ignore dl field_names =
     (case get_collator dl of
        Some collator \<Rightarrow>
          (case collator_set_ignore field_names collator of
             (None, c') \<Rightarrow> (Inr c', put_collator dl c')
           | (Some err, c') \<Rightarrow> (Inl err, put_collator dl c'))
      | None \<Rightarrow> (Inl ValueError, dl))"


section \<open>Concrete runs\<close>

text \<open>A disk that holds the save folder \<^verbatim>\<open>/ckpt\<close> and the run directory of an earlier launch.\<close>

definition disk :: env where
  "disk = \<lparr> cwd = ''/home'', launch_time = ''2022-04-01'',
            path_exists = (\<lambda>p. p = ''/ckpt'' \<or> p = ''/ckpt/2022-03-31''),
            path_is_file = (\<lambda>p. False) \<rparr>"

definition settings :: config where
  "settings = \<lparr> cfg_variant = ModelCheckpointCallback, cfg_monitor = Some ''acc'',
                cfg_save_folder = Some ''/ckpt'', cfg_save_every_n_epochs = Some 2,
                cfg_save_every_n_batches = None, cfg_save_last = True,
                cfg_save_topk = Some 2, cfg_save_on_exception = OneClass KeyError_cls,
                cfg_larger_better = True \<rparr>"

text \<open>The callback that \<^const>\<open>init\<close> builds from these settings on this disk.\<close>

definition manager :: "int checkpoint_callback" where
  "manager = \<lparr> variant = ModelCheckpointCallback, monitor = Some ''acc'',
               save_folder = ''/ckpt'', save_every_n_epochs = 2,
               save_every_n_batches = sys_maxsize, save_last = True,
               save_topk = Some 2, larger_better = True,
               save_on_exception = [KeyError_cls], topk_model = [], topn = 0,
               real_monitor = VStr ''acc'', timestamp_path = ''/ckpt/2022-04-01'' \<rparr>"

definition counters :: "int \<Rightarrow> int \<Rightarrow> trainer" where
  "counters ep b = \<lparr> cur_epoch_idx = ep, global_forward_batches = b \<rparr>"

text \<open>Metric values are integers in the concrete runs, written in decimal.\<close>

definition show_metric :: "int metric \<Rightarrow> string" where
  "show_metric m = str_int (val_of m)"

text \<open>
  Four validations with the metric values 5, 7, 6, 9, and three where the first two
  tie, each at its own batch counter.
\<close>

definition validations :: "(trainer \<times> string \<times> int metric) list" where
  "validations =
     [(counters 1 10, ''acc'', Plain 5), (counters 1 20, ''acc'', Plain 7),
      (counters 1 30, ''acc'', Plain 6), (counters 1 40, ''acc'', Plain 9)]"



section \<open>Properties\<close>

subsection \<open>Paths, folder names and the constructor\<close>

lemma is_absolute_prefix: "\<not> is_absolute (folder_prefix v @ s)"
  by (cases v) (simp_all add: is_absolute_def)

lemma joinpath_inject:
  "\<not> is_absolute a \<Longrightarrow> \<not> is_absolute b \<Longrightarrow> (joinpath p a = joinpath p b) = (a = b)"
  by (auto simp: joinpath_def)

lemma epoch_ne_last: "epoch_folder cb tr \<noteq> last_folder cb"
  by (simp add: epoch_folder_def last_folder_def)

lemma epoch_path_ne_last_path:
  "joinpath p (epoch_folder cb tr) \<noteq> joinpath p (last_folder cb)"
  using epoch_ne_last [of cb tr]
  by (simp add: joinpath_inject is_absolute_prefix epoch_folder_def last_folder_def)

lemma init_fields:
  assumes "init e c = Inr (cb, ops)"
  shows "1 \<le> save_every_n_epochs cb" and "1 \<le> save_every_n_batches cb"
    and "save_topk cb = cfg_save_topk c" and "\<forall>k. save_topk cb = Some k \<longrightarrow> 1 \<le> k"
    and "topk_model cb = []" and "topn cb = 0" and "larger_better cb = cfg_larger_better c"
    and "save_every_n_epochs cb = (case cfg_save_every_n_epochs c of None \<Rightarrow> sys_maxsize | Some n \<Rightarrow> n)"
    and "save_every_n_batches cb = (case cfg_save_every_n_batches c of None \<Rightarrow> sys_maxsize | Some n \<Rightarrow> n)"
    and "save_last cb = cfg_save_last c" and "variant cb = cfg_variant c"
  using assms
  by (auto simp: init_def Let_def sys_maxsize_def split: if_splits option.splits sum.splits prod.splits)

lemma init_settings: "init disk settings = Inr (manager, [Mkdir ''/ckpt/2022-04-01''])"
  by (simp add: init_def Let_def disk_def settings_def manager_def exception_list_def joinpath_def
      is_absolute_def KeyError_cls_def LookupError_cls_def Exception_cls_def BaseException_cls_def object_cls_def)

subsection \<open>The scheduler\<close>

text \<open>
  C4. \<^verbatim>\<open>on_exception\<close> saves exactly when the class of the raised exception is an
  element of the allow-list. A subclass of a listed class is not an element: with the
  allow-list \<^verbatim>\<open>[KeyError]\<close> a \<^verbatim>\<open>KeyError\<close> saves, a \<^verbatim>\<open>TypeError\<close> does not, and neither
  does an instance of any proper subclass of \<^verbatim>\<open>KeyError\<close>.
\<close>

theorem on_exception_exact_class:
  "(SaveCall (save_fn_name (variant cb)) (joinpath (timestamp_path cb) (exception_folder cb tr cls))
      \<in> set (on_exception cb tr cls)) = (cls \<in> set (save_on_exception cb))
   \<and> (cls \<notin> set (save_on_exception cb) \<longrightarrow> on_exception cb tr cls = [])
   \<and> (save_on_exception cb = [KeyError_cls] \<longrightarrow>
        on_exception cb tr KeyError_cls = save cb (exception_folder cb tr KeyError_cls)
        \<and> on_exception cb tr TypeError_cls = []
        \<and> (\<forall>sub. issubclass sub KeyError_cls \<and> sub \<noteq> KeyError_cls \<longrightarrow> on_exception cb tr sub = []))"
  by (simp add: on_exception_def save_def Let_def KeyError_cls_def TypeError_cls_def)

theorem on_exception_exact_class_witness:
  "save_on_exception manager = [KeyError_cls]
   \<and> issubclass (PyClass ''MissingField'' (Some KeyError_cls)) KeyError_cls
   \<and> on_exception manager (counters 3 120) KeyError_cls =
       [Mkdir ''/ckpt/2022-04-01/model-epoch_3-batch_120-exception_KeyError'',
        SaveCall ''save_model'' ''/ckpt/2022-04-01/model-epoch_3-batch_120-exception_KeyError'']
   \<and> on_exception manager (counters 3 120) TypeError_cls = []
   \<and> on_exception manager (counters 3 120) (PyClass ''MissingField'' (Some KeyError_cls)) = []"
proof -
  have allow: "save_on_exception manager = [KeyError_cls]"
    by (simp add: manager_def)
  have sub: "issubclass (PyClass ''MissingField'' (Some KeyError_cls)) KeyError_cls"
    by (simp add: KeyError_cls_def)
  have ne: "PyClass ''MissingField'' (Some KeyError_cls) \<noteq> KeyError_cls"
    by (simp add: KeyError_cls_def)
  have folder: "save manager (exception_folder manager (counters 3 120) KeyError_cls) =
       [Mkdir ''/ckpt/2022-04-01/model-epoch_3-batch_120-exception_KeyError'',
        SaveCall ''save_model'' ''/ckpt/2022-04-01/model-epoch_3-batch_120-exception_KeyError'']"
    by (simp add: save_def Let_def exception_folder_def batch_folder_def manager_def counters_def
        joinpath_def is_absolute_def str_int_def digit_char_def KeyError_cls_def)
  from on_exception_exact_class [of manager "counters 3 120" KeyError_cls] allow sub ne folder
  show ?thesis by simp
qed


text \<open>
  C5. At the end of an epoch the epoch save fires exactly when the epoch index is
  divisible by \<^verbatim>\<open>save_every_n_epochs\<close>, and the save of the last slot fires exactly
  when \<^verbatim>\<open>save_last\<close> is set; the number of saves of the call is the sum of the two.
  The intervals are at least 1 after \<^verbatim>\<open>__init__\<close> (\<open>init_fields\<close>). With an interval
  of 2 and the epoch indices 1 to 5, the epoch save fires at 2 and 4 only.
\<close>

theorem epoch_end_saves:
  assumes "1 \<le> save_every_n_epochs cb"
  shows "\<exists>ops. on_train_epoch_end cb tr = Inr ops
     \<and> ((SaveCall (save_fn_name (variant cb)) (joinpath (timestamp_path cb) (epoch_folder cb tr)) \<in> set ops)
          = (cur_epoch_idx tr mod save_every_n_epochs cb = 0))
     \<and> ((SaveCall (save_fn_name (variant cb)) (joinpath (timestamp_path cb) (last_folder cb)) \<in> set ops)
          = save_last cb)
     \<and> admissions ops = (if cur_epoch_idx tr mod save_every_n_epochs cb = 0 then 1 else 0)
                          + (if save_last cb then 1 else 0)"
  using assms epoch_path_ne_last_path [of "timestamp_path cb" cb tr]
  by (auto simp: on_train_epoch_end_def py_mod_def save_def Let_def admissions_def)

theorem epoch_end_saves_witness:
  "1 \<le> save_every_n_epochs manager
   \<and> map (\<lambda>ep. SaveCall ''save_model'' (joinpath ''/ckpt/2022-04-01'' (epoch_folder manager (counters ep (10 * ep))))
               \<in> set (case on_train_epoch_end manager (counters ep (10 * ep)) of Inl err \<Rightarrow> [] | Inr ops \<Rightarrow> ops))
       [1, 2, 3, 4, 5]
     = [False, True, False, True, False]
   \<and> map (\<lambda>ep. map_sum id admissions (on_train_epoch_end manager (counters ep (10 * ep)))) [1, 2, 3, 4, 5]
     = [Inr 1, Inr 2, Inr 1, Inr 2, Inr 1]"
proof -
  have n: "1 \<le> save_every_n_epochs manager" by (simp add: manager_def)
  have m: "save_every_n_epochs manager = 2" "save_last manager" "variant manager = ModelCheckpointCallback"
    "timestamp_path manager = ''/ckpt/2022-04-01''"
    by (simp_all add: manager_def)
  have c: "\<And>ep b. cur_epoch_idx (counters ep b) = ep" by (simp add: counters_def)
  note e = epoch_end_saves [OF n, of "counters ep (10 * ep)" for ep]
  from e [of 1] e [of 2] e [of 3] e [of 4] e [of 5] n show ?thesis
    by (auto simp: m c)
qed

text \<open>
  C6. An interval that is not configured becomes \<^verbatim>\<open>sys.maxsize\<close>. For every counter
  from 1 up to, but not including, \<^verbatim>\<open>sys.maxsize\<close> the remainder is not zero: the end
  of an epoch then saves nothing but the last slot, the end of a batch saves nothing,
  and neither raises. (The trainer counts an epoch or a batch before it calls the
  handler, so the counters it passes start at 1.)
\<close>

theorem unset_interval_dormant:
  assumes "init e c = Inr (cb, ops0)"
  shows "(cfg_save_every_n_epochs c = None \<longrightarrow>
            save_every_n_epochs cb = sys_maxsize
            \<and> (\<forall>tr. 0 < cur_epoch_idx tr \<and> cur_epoch_idx tr < sys_maxsize \<longrightarrow>
                  on_train_epoch_end cb tr
                    = Inr (if save_last cb then save cb (last_folder cb) else [])))
       \<and> (cfg_save_every_n_batches c = None \<longrightarrow>
            save_every_n_batches cb = sys_maxsize
            \<and> (\<forall>tr. 0 < global_forward_batches tr \<and> global_forward_batches tr < sys_maxsize \<longrightarrow>
                  on_train_batch_end cb tr = Inr []))"
proof -
  have pos: "sys_maxsize \<noteq> 0" by (simp add: sys_maxsize_def)
  have nz: "\<And>x. 0 < x \<Longrightarrow> x < sys_maxsize \<Longrightarrow> x mod sys_maxsize \<noteq> 0"
    by simp
  show ?thesis
    using init_fields(8,9) [OF assms] pos nz
    by (auto simp: on_train_epoch_end_def on_train_batch_end_def py_mod_def)
qed

theorem unset_interval_dormant_witness:
  "init disk (settings\<lparr>cfg_save_every_n_epochs := None, cfg_save_last := False\<rparr>)
     = Inr (manager\<lparr>save_every_n_epochs := sys_maxsize, save_last := False\<rparr>, [Mkdir ''/ckpt/2022-04-01''])
   \<and> on_train_epoch_end (manager\<lparr>save_every_n_epochs := sys_maxsize, save_last := False\<rparr>)
        (counters 4 1000) = Inr []
   \<and> on_train_batch_end (manager\<lparr>save_every_n_epochs := sys_maxsize, save_last := False\<rparr>)
        (counters 4 1000) = Inr []"
proof -
  have i: "init disk (settings\<lparr>cfg_save_every_n_epochs := None, cfg_save_last := False\<rparr>)
     = Inr (manager\<lparr>save_every_n_epochs := sys_maxsize, save_last := False\<rparr>, [Mkdir ''/ckpt/2022-04-01''])"
    by (simp add: init_def Let_def disk_def settings_def manager_def exception_list_def joinpath_def
      is_absolute_def KeyError_cls_def LookupError_cls_def Exception_cls_def BaseException_cls_def object_cls_def)
  have r: "0 < cur_epoch_idx (counters 4 1000) \<and> cur_epoch_idx (counters 4 1000) < sys_maxsize"
    "0 < global_forward_batches (counters 4 1000) \<and> global_forward_batches (counters 4 1000) < sys_maxsize"
    by (simp_all add: counters_def sys_maxsize_def)
  have c: "cfg_save_every_n_epochs (settings\<lparr>cfg_save_every_n_epochs := None, cfg_save_last := False\<rparr>) = None"
    "cfg_save_every_n_batches (settings\<lparr>cfg_save_every_n_epochs := None, cfg_save_last := False\<rparr>) = None"
    by (simp_all add: settings_def)
  from unset_interval_dormant [OF i] r c i show ?thesis
    by simp
qed

subsection \<open>The resumable state\<close>

lemma on_save_checkpoint_eq:
  "on_save_checkpoint e cb =
     [(''timestamp_path'', VStr (absolute (cwd e) (timestamp_path cb))),
      (''_topk_model'', VDict (apply_to_collection (topk_model cb) can_item item)),
      (''save_topk'', VInt (case save_topk cb of None \<Rightarrow> 0 | Some k \<Rightarrow> k)),
      (''_real_monitor'', real_monitor cb)]"
  by (simp add: on_save_checkpoint_def Let_def)

lemma item_unwraps: "(if can_item v then item v else v) = Plain (val_of v)"
  by (cases v) simp_all

lemma apply_to_collection_item:
  "map fst (apply_to_collection d can_item item) = map fst d"
  "map snd (apply_to_collection d can_item item) = map (\<lambda>v. Plain (val_of v)) (map snd d)"
  by (induction d) (auto simp: apply_to_collection_def item_unwraps)


text \<open>
  C9, as the claim states it: the keys of the state mapping are \<^verbatim>\<open>timestamp_path\<close>,
  \<^verbatim>\<open>topk_state\<close>, \<^verbatim>\<open>save_topk\<close> and \<^verbatim>\<open>real_monitor\<close>. The mapping that
  \<^verbatim>\<open>on_save_checkpoint\<close> returns has no key \<^verbatim>\<open>topk_state\<close>.
\<close>

theorem on_save_checkpoint_keys_counterexample:
  "\<not> (set (map fst (on_save_checkpoint disk manager))
        = {''timestamp_path'', ''topk_state'', ''save_topk'', ''real_monitor''})"
proof
  assume "set (map fst (on_save_checkpoint disk manager))
        = {''timestamp_path'', ''topk_state'', ''save_topk'', ''real_monitor''}"
  then have "''topk_state'' \<in> set (map fst (on_save_checkpoint disk manager))"
    by simp
  then show False
    by (simp add: on_save_checkpoint_eq)
qed


text \<open>
  C9, amended. The state mapping is flat and has four distinct keys. Under
  \<^verbatim>\<open>timestamp_path\<close> it holds the absolute run directory as a string; under
  \<^verbatim>\<open>_topk_model\<close> the retention mapping with the same keys in the same order and every
  value unwrapped to a plain number; under \<^verbatim>\<open>save_topk\<close> the configured width as an
  integer, 0 when it is unset; and under its fourth key the resolved monitor.
\<close>

theorem on_save_checkpoint_flat:
  "length (on_save_checkpoint e cb) = 4
   \<and> distinct (map fst (on_save_checkpoint e cb))
   \<and> map_of (on_save_checkpoint e cb) ''timestamp_path''
       = Some (VStr (absolute (cwd e) (timestamp_path cb)))
   \<and> (\<exists>d. map_of (on_save_checkpoint e cb) ''_topk_model'' = Some (VDict d)
          \<and> map fst d = map fst (topk_model cb)
          \<and> map snd d = map (\<lambda>v. Plain (val_of v)) (map snd (topk_model cb)))
   \<and> map_of (on_save_checkpoint e cb) ''save_topk''
       = Some (VInt (case save_topk cb of None \<Rightarrow> 0 | Some k \<Rightarrow> k))
   \<and> (\<exists>key. key \<notin> {''timestamp_path'', ''_topk_model'', ''save_topk''}
          \<and> map_of (on_save_checkpoint e cb) key = Some (real_monitor cb))"
proof -
  let ?st = "on_save_checkpoint e cb"
  have eq: "?st =
     [(''timestamp_path'', VStr (absolute (cwd e) (timestamp_path cb))),
      (''_topk_model'', VDict (apply_to_collection (topk_model cb) can_item item)),
      (''save_topk'', VInt (case save_topk cb of None \<Rightarrow> 0 | Some k \<Rightarrow> k)),
      (''_real_monitor'', real_monitor cb)]"
    by (rule on_save_checkpoint_eq)
  have len: "length ?st = 4" and dist: "distinct (map fst ?st)"
    by (simp_all add: eq)
  have ts: "map_of ?st ''timestamp_path'' = Some (VStr (absolute (cwd e) (timestamp_path cb)))"
    by (simp add: eq)
  have tm: "map_of ?st ''_topk_model''
      = Some (VDict (apply_to_collection (topk_model cb) can_item item))"
    by (simp add: eq)
  have k: "map_of ?st ''save_topk'' = Some (VInt (case save_topk cb of None \<Rightarrow> 0 | Some k \<Rightarrow> k))"
    by (simp add: eq)
  have "''_real_monitor'' \<notin> {''timestamp_path'', ''_topk_model'', ''save_topk''}
          \<and> map_of ?st ''_real_monitor'' = Some (real_monitor cb)"
    by (simp add: eq)
  then have last: "\<exists>key. key \<notin> {''timestamp_path'', ''_topk_model'', ''save_topk''}
          \<and> map_of ?st key = Some (real_monitor cb)"
    by (rule exI)
  from tm have tm': "\<exists>d. map_of ?st ''_topk_model'' = Some (VDict d)
          \<and> map fst d = map fst (topk_model cb)
          \<and> map snd d = map (\<lambda>v. Plain (val_of v)) (map snd (topk_model cb))"
    using apply_to_collection_item [of "topk_model cb"] by blast
  from len dist ts tm' k last show ?thesis
    by (intro conjI)
qed

theorem on_save_checkpoint_flat_witness:
  "map_of (on_save_checkpoint disk
             (manager\<lparr>topk_model := [(''model-epoch_1-batch_20-acc_7'', Item 7)], topn := 1\<rparr>))
       ''timestamp_path'' = Some (VStr ''/ckpt/2022-04-01'')
   \<and> map_of (on_save_checkpoint disk
             (manager\<lparr>topk_model := [(''model-epoch_1-batch_20-acc_7'', Item 7)], topn := 1\<rparr>))
       ''_topk_model'' = Some (VDict [(''model-epoch_1-batch_20-acc_7'', Plain 7)])
   \<and> map_of (on_save_checkpoint disk
             (manager\<lparr>topk_model := [(''model-epoch_1-batch_20-acc_7'', Item 7)], topn := 1\<rparr>))
       ''save_topk'' = Some (VInt 2)
   \<and> map_of (on_save_checkpoint disk (manager\<lparr>save_topk := None\<rparr>)) ''save_topk'' = Some (VInt 0)"
proof -
  let ?m = "manager\<lparr>topk_model := [(''model-epoch_1-batch_20-acc_7'', Item 7)], topn := 1\<rparr>"
  from on_save_checkpoint_flat [of disk ?m]
  have ts: "map_of (on_save_checkpoint disk ?m) ''timestamp_path'' = Some (VStr ''/ckpt/2022-04-01'')"
    and k: "map_of (on_save_checkpoint disk ?m) ''save_topk'' = Some (VInt 2)"
    by (simp_all add: manager_def disk_def absolute_def is_absolute_def)
  from on_save_checkpoint_flat [of disk ?m]
  obtain d where d: "map_of (on_save_checkpoint disk ?m) ''_topk_model'' = Some (VDict d)"
    and keys: "map fst d = map fst (topk_model ?m)"
    and vals: "map snd d = map (\<lambda>v. Plain (val_of v)) (map snd (topk_model ?m))"
    by blast
  from keys vals have "d = [(''model-epoch_1-batch_20-acc_7'', Plain 7)]"
    by (cases d) (auto simp: manager_def)
  with d have tm: "map_of (on_save_checkpoint disk ?m) ''_topk_model''
      = Some (VDict [(''model-epoch_1-batch_20-acc_7'', Plain 7)])"
    by simp
  from on_save_checkpoint_flat [of disk "manager\<lparr>save_topk := None\<rparr>"]
  have z: "map_of (on_save_checkpoint disk (manager\<lparr>save_topk := None\<rparr>)) ''save_topk'' = Some (VInt 0)"
    by simp
  from ts tm k z show ?thesis by (intro conjI)
qed

lemma dict_update_self_aux:
  "distinct (map fst d) \<Longrightarrow> set xs \<subseteq> set d \<Longrightarrow>
     foldl (\<lambda>acc kv. AList.update (fst kv) (snd kv) acc) d xs = d"
proof (induction xs)
  case Nil
  then show ?case by simp
next
  case (Cons x xs)
  then have "x \<in> set d" by simp
  with Cons.prems(1) have "AList.update (fst x) (snd x) d = d"
    by (cases x) (simp add: update_triv)
  with Cons show ?case by simp
qed

lemma dict_update_self: "distinct (map fst d) \<Longrightarrow> dict_update d d = d"
  by (simp add: dict_update_def dict_update_self_aux)

lemma on_load_missing_dir:
  assumes "getitem states ''timestamp_path'' = Inr (VStr ts)" and "\<not> path_exists e ts"
  shows "on_load_checkpoint e cb states =
     (case getitem states ''real_monitor'' of
        Inl err \<Rightarrow> Inl err
      | Inr m \<Rightarrow> Inr (cb\<lparr>real_monitor := m\<rparr>, [LogInfo]))"
  using assms by (simp add: on_load_checkpoint_def)

lemma on_load_existing_dir:
  assumes "getitem states ''timestamp_path'' = Inr (VStr ts)" and "path_exists e ts"
    and "getitem states ''_topk_model'' = Inr tm"
    and "getitem states ''save_topk'' = Inr (VInt n)"
  shows "on_load_checkpoint e cb states =
     (if n \<noteq> 0 \<and> (case save_topk cb of Some b \<Rightarrow> b \<noteq> n | None \<Rightarrow> False)
      then Inl AssertionError
      else (case getitem states ''real_monitor'' of
              Inl err \<Rightarrow> Inl err
            | Inr m \<Rightarrow>
                Inr (cb\<lparr>timestamp_path := ts,
                         topk_model := dict_update (topk_model cb) (topk_model cb),
                         real_monitor := m\<rparr>, [LogInfo])))"
  using assms by (simp add: on_load_checkpoint_def Let_def split: option.splits sum.splits)

lemma getitem_on_save:
  "getitem (on_save_checkpoint e cb) ''timestamp_path'' = Inr (VStr (absolute (cwd e) (timestamp_path cb)))"
  "getitem (on_save_checkpoint e cb) ''_topk_model'' = Inr (VDict (apply_to_collection (topk_model cb) can_item item))"
  "getitem (on_save_checkpoint e cb) ''save_topk'' = Inr (VInt (case save_topk cb of None \<Rightarrow> 0 | Some k \<Rightarrow> k))"
  "getitem (on_save_checkpoint e cb) ''real_monitor'' = Inl (KeyError ''real_monitor'')"
  by (simp_all add: getitem_def on_save_checkpoint_eq)

lemma on_load_of_on_save:
  "on_load_checkpoint e cb (on_save_checkpoint e' cb') =
     (if path_exists e (absolute (cwd e') (timestamp_path cb'))
         \<and> (case save_topk cb' of None \<Rightarrow> False
             | Some a \<Rightarrow> a \<noteq> 0 \<and> (case save_topk cb of Some b \<Rightarrow> b \<noteq> a | None \<Rightarrow> False))
      then Inl AssertionError
      else Inl (KeyError ''real_monitor''))"
proof (cases "path_exists e (absolute (cwd e') (timestamp_path cb'))")
  case True
  show ?thesis
    using True
    by (simp add: on_load_existing_dir [OF getitem_on_save(1) True getitem_on_save(2) getitem_on_save(3)]
        getitem_on_save(4) split: option.splits)
next
  case False
  show ?thesis
    using False
    by (simp add: on_load_missing_dir [OF getitem_on_save(1) False] getitem_on_save(4))
qed

text \<open>
  C2. A snapshot taken by \<^verbatim>\<open>on_save_checkpoint\<close> is never restored: the snapshot stores
  the monitor under \<^verbatim>\<open>_real_monitor\<close> and \<^verbatim>\<open>on_load_checkpoint\<close> reads
  \<^verbatim>\<open>real_monitor\<close>, so every restore of a snapshot raises, with AssertionError when the
  run directory exists and two set widths differ, and with KeyError otherwise.
\<close>

theorem snapshot_restore_raises:
  "on_load_checkpoint e cb (on_save_checkpoint e' cb') =
     (if path_exists e (absolute (cwd e') (timestamp_path cb'))
         \<and> (case save_topk cb' of None \<Rightarrow> False
             | Some a \<Rightarrow> a \<noteq> 0 \<and> (case save_topk cb of Some b \<Rightarrow> b \<noteq> a | None \<Rightarrow> False))
      then Inl AssertionError
      else Inl (KeyError ''real_monitor''))"
  by (rule on_load_of_on_save)

lemma getitem_error: "getitem d k = Inl err \<Longrightarrow> err = KeyError k"
  by (simp add: getitem_def split: option.splits)

lemma py_int_error: "py_int v = Inl err \<Longrightarrow> err \<noteq> AssertionError"
  by (cases v) (auto split: option.splits)

lemma on_load_no_path:
  "getitem states ''timestamp_path'' = Inl err \<Longrightarrow> on_load_checkpoint e cb states = Inl err"
  by (simp add: on_load_checkpoint_def)

lemma on_load_bad_path:
  "getitem states ''timestamp_path'' = Inr v \<Longrightarrow> \<forall>ts. v \<noteq> VStr ts \<Longrightarrow>
     on_load_checkpoint e cb states = Inl TypeError"
  by (cases v) (simp_all add: on_load_checkpoint_def)

lemma on_load_no_entries:
  assumes "getitem states ''timestamp_path'' = Inr (VStr ts)" and "path_exists e ts"
    and "getitem states ''_topk_model'' = Inl err"
  shows "on_load_checkpoint e cb states = Inl err"
  using assms by (simp add: on_load_checkpoint_def Let_def)

lemma on_load_no_width:
  assumes "getitem states ''timestamp_path'' = Inr (VStr ts)" and "path_exists e ts"
    and "getitem states ''_topk_model'' = Inr tm"
    and "getitem states ''save_topk'' = Inl err"
  shows "on_load_checkpoint e cb states = Inl err"
  using assms by (simp add: on_load_checkpoint_def Let_def)

lemma on_load_bad_width:
  assumes "getitem states ''timestamp_path'' = Inr (VStr ts)" and "path_exists e ts"
    and "getitem states ''_topk_model'' = Inr tm"
    and "getitem states ''save_topk'' = Inr kv" and "py_int kv = Inl err"
  shows "on_load_checkpoint e cb states = Inl err"
  using assms by (simp add: on_load_checkpoint_def Let_def)

lemma on_load_compared:
  assumes "getitem states ''timestamp_path'' = Inr (VStr ts)" and "path_exists e ts"
    and "getitem states ''_topk_model'' = Inr tm"
    and "getitem states ''save_topk'' = Inr kv" and "py_int kv = Inr n"
  shows "on_load_checkpoint e cb states =
     (if n \<noteq> 0 \<and> (case save_topk cb of Some b \<Rightarrow> b \<noteq> n | None \<Rightarrow> False)
      then Inl AssertionError
      else (case getitem states ''real_monitor'' of
              Inl err \<Rightarrow> Inl err
            | Inr m \<Rightarrow>
                Inr (cb\<lparr>timestamp_path := ts,
                         topk_model := dict_update (topk_model cb) (topk_model cb),
                         real_monitor := m\<rparr>, [LogInfo])))"
  using assms by (simp add: on_load_checkpoint_def Let_def split: option.splits sum.splits)

lemma on_load_assertion_only_if:
  assumes raised: "on_load_checkpoint e cb states = Inl AssertionError"
  shows "\<exists>ts tm kv n k.
           getitem states ''timestamp_path'' = Inr (VStr ts) \<and> path_exists e ts
           \<and> getitem states ''_topk_model'' = Inr tm
           \<and> getitem states ''save_topk'' = Inr kv \<and> py_int kv = Inr n
           \<and> n \<noteq> 0 \<and> save_topk cb = Some k \<and> k \<noteq> n"
proof (cases "getitem states ''timestamp_path''")
  case (Inl err)
  with raised on_load_no_path [OF Inl, of e cb] getitem_error [OF Inl] show ?thesis by simp
next
  case (Inr v)
  show ?thesis
  proof (cases "\<exists>ts. v = VStr ts")
    case False
    with raised on_load_bad_path [OF Inr, of e cb] show ?thesis by simp
  next
    case True
    then obtain ts where v: "v = VStr ts" by blast
    note path = Inr [unfolded v]
    show ?thesis
    proof (cases "path_exists e ts")
      case False
      from raised on_load_missing_dir [OF path False, of cb]
      have "(case getitem states ''real_monitor'' of
               Inl err \<Rightarrow> Inl err
             | Inr m \<Rightarrow> Inr (cb\<lparr>real_monitor := m\<rparr>, [LogInfo])) = Inl AssertionError"
        by simp
      then have "getitem states ''real_monitor'' = Inl AssertionError"
        by (simp split: sum.splits)
      from getitem_error [OF this] show ?thesis by simp
    next
      case ex: True
      show ?thesis
      proof (cases "getitem states ''_topk_model''")
        case (Inl err)
        with raised on_load_no_entries [OF path ex Inl, of cb] getitem_error [OF Inl]
        show ?thesis by simp
      next
        case tm: (Inr tm)
        show ?thesis
        proof (cases "getitem states ''save_topk''")
          case (Inl err)
          with raised on_load_no_width [OF path ex tm Inl, of cb] getitem_error [OF Inl]
          show ?thesis by simp
        next
          case kv: (Inr kv)
          show ?thesis
          proof (cases "py_int kv")
            case (Inl err)
            with raised on_load_bad_width [OF path ex tm kv Inl, of cb] py_int_error [OF Inl]
            show ?thesis by simp
          next
            case n: (Inr n)
            note eq = on_load_compared [OF path ex tm kv n, of cb]
            have cmp: "n \<noteq> 0 \<and> (case save_topk cb of Some b \<Rightarrow> b \<noteq> n | None \<Rightarrow> False)"
            proof (rule ccontr)
              assume "\<not> ?thesis"
              with raised eq have "(case getitem states ''real_monitor'' of
                   Inl err \<Rightarrow> Inl err
                 | Inr m \<Rightarrow>
                     Inr (cb\<lparr>timestamp_path := ts,
                              topk_model := dict_update (topk_model cb) (topk_model cb),
                              real_monitor := m\<rparr>, [LogInfo])) = Inl AssertionError"
                by (simp split: if_splits)
              then have "getitem states ''real_monitor'' = Inl AssertionError"
                by (simp split: sum.splits)
              from getitem_error [OF this] show False by simp
            qed
            then obtain k where "save_topk cb = Some k" and "k \<noteq> n"
              by (cases "save_topk cb") auto
            with cmp path ex tm kv n show ?thesis by blast
          qed
        qed
      qed
    qed
  qed
qed


text \<open>
  C7, as the claim states it: every restore whose recorded width disagrees with the
  configured one fails. Here the state records width 3, the callback is configured with
  width 2, the recorded run directory is not on disk, and the restore returns.
\<close>

theorem restore_width_mismatch_counterexample:
  "on_load_checkpoint disk manager
     [(''timestamp_path'', VStr ''/ckpt/2022-03-30''), (''_topk_model'', VDict []),
      (''save_topk'', VInt 3), (''real_monitor'', VStr ''acc'')]
     = Inr (manager, [LogInfo])
   \<and> save_topk manager = Some 2"
  by (simp add: on_load_checkpoint_def getitem_def disk_def manager_def)


text \<open>
  C7, amended. A restore raises AssertionError exactly when the recorded run directory
  exists, the state has its \<^verbatim>\<open>_topk_model\<close> and \<^verbatim>\<open>save_topk\<close> entries, the recorded
  width is set (not 0), the configured width is set, and the two differ. When the
  recorded directory is gone the widths are not compared: the restore keeps the
  callback as it is but for the monitor it reads. When the directory exists and the
  recorded width is 0 or the configured width is unset the widths are not compared
  either: the restore adopts the directory and reads the monitor.
\<close>

theorem restore_width_mismatch:
  "(on_load_checkpoint e cb states = Inl AssertionError)
     = (\<exists>ts tm kv n k.
          getitem states ''timestamp_path'' = Inr (VStr ts) \<and> path_exists e ts
          \<and> getitem states ''_topk_model'' = Inr tm
          \<and> getitem states ''save_topk'' = Inr kv \<and> py_int kv = Inr n
          \<and> n \<noteq> 0 \<and> save_topk cb = Some k \<and> k \<noteq> n)
   \<and> (\<forall>ts. getitem states ''timestamp_path'' = Inr (VStr ts) \<and> \<not> path_exists e ts \<longrightarrow>
          on_load_checkpoint e cb states =
            (case getitem states ''real_monitor'' of
               Inl err \<Rightarrow> Inl err
             | Inr m \<Rightarrow> Inr (cb\<lparr>real_monitor := m\<rparr>, [LogInfo])))
   \<and> (\<forall>ts tm kv n.
          getitem states ''timestamp_path'' = Inr (VStr ts) \<and> path_exists e ts
          \<and> getitem states ''_topk_model'' = Inr tm
          \<and> getitem states ''save_topk'' = Inr kv \<and> py_int kv = Inr n
          \<and> (n = 0 \<or> save_topk cb = None) \<longrightarrow>
          on_load_checkpoint e cb states =
            (case getitem states ''real_monitor'' of
               Inl err \<Rightarrow> Inl err
             | Inr m \<Rightarrow>
                 Inr (cb\<lparr>timestamp_path := ts,
                          topk_model := dict_update (topk_model cb) (topk_model cb),
                          real_monitor := m\<rparr>, [LogInfo])))"
proof (intro conjI allI impI)
  show "(on_load_checkpoint e cb states = Inl AssertionError)
     = (\<exists>ts tm kv n k.
          getitem states ''timestamp_path'' = Inr (VStr ts) \<and> path_exists e ts
          \<and> getitem states ''_topk_model'' = Inr tm
          \<and> getitem states ''save_topk'' = Inr kv \<and> py_int kv = Inr n
          \<and> n \<noteq> 0 \<and> save_topk cb = Some k \<and> k \<noteq> n)"
  proof
    assume "on_load_checkpoint e cb states = Inl AssertionError"
    then show "\<exists>ts tm kv n k.
          getitem states ''timestamp_path'' = Inr (VStr ts) \<and> path_exists e ts
          \<and> getitem states ''_topk_model'' = Inr tm
          \<and> getitem states ''save_topk'' = Inr kv \<and> py_int kv = Inr n
          \<and> n \<noteq> 0 \<and> save_topk cb = Some k \<and> k \<noteq> n"
      by (rule on_load_assertion_only_if)
  next
    assume "\<exists>ts tm kv n k.
          getitem states ''timestamp_path'' = Inr (VStr ts) \<and> path_exists e ts
          \<and> getitem states ''_topk_model'' = Inr tm
          \<and> getitem states ''save_topk'' = Inr kv \<and> py_int kv = Inr n
          \<and> n \<noteq> 0 \<and> save_topk cb = Some k \<and> k \<noteq> n"
    then obtain ts tm kv n k where
      h: "getitem states ''timestamp_path'' = Inr (VStr ts)" "path_exists e ts"
         "getitem states ''_topk_model'' = Inr tm"
         "getitem states ''save_topk'' = Inr kv" "py_int kv = Inr n"
      and d: "n \<noteq> 0" "save_topk cb = Some k" "k \<noteq> n"
      by blast
    show "on_load_checkpoint e cb states = Inl AssertionError"
      using d by (simp add: on_load_compared [OF h])
  qed
next
  fix ts
  assume "getitem states ''timestamp_path'' = Inr (VStr ts) \<and> \<not> path_exists e ts"
  then show "on_load_checkpoint e cb states =
            (case getitem states ''real_monitor'' of
               Inl err \<Rightarrow> Inl err
             | Inr m \<Rightarrow> Inr (cb\<lparr>real_monitor := m\<rparr>, [LogInfo]))"
    using on_load_missing_dir [of states ts e cb] by blast
next
  fix ts tm kv n
  assume a: "getitem states ''timestamp_path'' = Inr (VStr ts) \<and> path_exists e ts
          \<and> getitem states ''_topk_model'' = Inr tm
          \<and> getitem states ''save_topk'' = Inr kv \<and> py_int kv = Inr n
          \<and> (n = 0 \<or> save_topk cb = None)"
  then have h: "getitem states ''timestamp_path'' = Inr (VStr ts)" "path_exists e ts"
         "getitem states ''_topk_model'' = Inr tm"
         "getitem states ''save_topk'' = Inr kv" "py_int kv = Inr n"
    by blast+
  from a have "n = 0 \<or> save_topk cb = None" by simp
  then show "on_load_checkpoint e cb states =
            (case getitem states ''real_monitor'' of
               Inl err \<Rightarrow> Inl err
             | Inr m \<Rightarrow>
                 Inr (cb\<lparr>timestamp_path := ts,
                          topk_model := dict_update (topk_model cb) (topk_model cb),
                          real_monitor := m\<rparr>, [LogInfo]))"
    by (auto simp: on_load_compared [OF h])
qed

theorem restore_width_mismatch_witness:
  "on_load_checkpoint disk manager
     (on_save_checkpoint disk (manager\<lparr>save_topk := Some 3, timestamp_path := ''/ckpt/2022-03-31''\<rparr>))
     = Inl AssertionError
   \<and> on_load_checkpoint disk manager
       [(''timestamp_path'', VStr ''/ckpt/2022-03-31''), (''_topk_model'', VDict []),
        (''save_topk'', VStr ''3''), (''real_monitor'', VStr ''acc'')]
     = Inl AssertionError
   \<and> on_load_checkpoint disk manager
       [(''timestamp_path'', VStr ''/ckpt/2022-03-30''), (''_topk_model'', VDict []),
        (''save_topk'', VInt 3), (''real_monitor'', VStr ''acc'')]
     = Inr (manager\<lparr>real_monitor := VStr ''acc''\<rparr>, [LogInfo])
   \<and> on_load_checkpoint disk (manager\<lparr>save_topk := None\<rparr>)
       [(''timestamp_path'', VStr ''/ckpt/2022-03-31''), (''_topk_model'', VDict []),
        (''save_topk'', VInt 3), (''real_monitor'', VStr ''acc'')]
     = Inr (manager\<lparr>save_topk := None, timestamp_path := ''/ckpt/2022-03-31'',
                     topk_model := [], real_monitor := VStr ''acc''\<rparr>, [LogInfo])"
proof -
  let ?old = "manager\<lparr>save_topk := Some 3, timestamp_path := ''/ckpt/2022-03-31''\<rparr>"
  let ?snap = "on_save_checkpoint disk ?old"
  let ?text = "[(''timestamp_path'', VStr ''/ckpt/2022-03-31''), (''_topk_model'', VDict []),
        (''save_topk'', VStr ''3''), (''real_monitor'', VStr ''acc'')] :: (string, int pyval) dict"
  let ?gone = "[(''timestamp_path'', VStr ''/ckpt/2022-03-30''), (''_topk_model'', VDict []),
        (''save_topk'', VInt 3), (''real_monitor'', VStr ''acc'')] :: (string, int pyval) dict"
  let ?there = "[(''timestamp_path'', VStr ''/ckpt/2022-03-31''), (''_topk_model'', VDict []),
        (''save_topk'', VInt 3), (''real_monitor'', VStr ''acc'')] :: (string, int pyval) dict"
  have ex: "path_exists disk ''/ckpt/2022-03-31''" and nex: "\<not> path_exists disk ''/ckpt/2022-03-30''"
    by (simp_all add: disk_def)
  have new: "save_topk manager = Some 2" and tm0: "topk_model manager = []"
    by (simp_all add: manager_def)
  have s1: "getitem ?snap ''timestamp_path'' = Inr (VStr ''/ckpt/2022-03-31'')"
    by (simp add: getitem_on_save absolute_def is_absolute_def)
  have s2: "getitem ?snap ''_topk_model'' = Inr (VDict (apply_to_collection (topk_model ?old) can_item item))"
    by (rule getitem_on_save(2))
  have s3: "getitem ?snap ''save_topk'' = Inr (VInt 3)"
    by (simp add: getitem_on_save)
  have "\<exists>ts tm kv n k.
          getitem ?snap ''timestamp_path'' = Inr (VStr ts) \<and> path_exists disk ts
          \<and> getitem ?snap ''_topk_model'' = Inr tm
          \<and> getitem ?snap ''save_topk'' = Inr kv \<and> py_int kv = Inr n
          \<and> n \<noteq> 0 \<and> save_topk manager = Some k \<and> k \<noteq> n"
    using s1 ex s2 s3 new by (intro exI [of _ "''/ckpt/2022-03-31''"] exI [of _ "VDict (apply_to_collection (topk_model ?old) can_item item)"]
        exI [of _ "VInt 3"] exI [of _ 3] exI [of _ 2]) simp
  with restore_width_mismatch [of disk manager ?snap]
  have a: "on_load_checkpoint disk manager ?snap = Inl AssertionError"
    by blast
  have t1: "getitem ?text ''timestamp_path'' = Inr (VStr ''/ckpt/2022-03-31'')"
    and t2: "getitem ?text ''_topk_model'' = Inr (VDict [])"
    and t3: "getitem ?text ''save_topk'' = Inr (VStr ''3'')"
    by (simp_all add: getitem_def)
  have t4: "py_int (VStr ''3'' :: int pyval) = Inr 3"
    by (simp add: parse_int_def strip_def is_space_def digit_of_def)
  have "\<exists>ts tm kv n k.
          getitem ?text ''timestamp_path'' = Inr (VStr ts) \<and> path_exists disk ts
          \<and> getitem ?text ''_topk_model'' = Inr tm
          \<and> getitem ?text ''save_topk'' = Inr kv \<and> py_int kv = Inr n
          \<and> n \<noteq> 0 \<and> save_topk manager = Some k \<and> k \<noteq> n"
    using t1 ex t2 t3 t4 new by (intro exI [of _ "''/ckpt/2022-03-31''"] exI [of _ "VDict []"]
        exI [of _ "VStr ''3''"] exI [of _ 3] exI [of _ 2]) simp
  with restore_width_mismatch [of disk manager ?text]
  have b: "on_load_checkpoint disk manager ?text = Inl AssertionError"
    by blast
  have g1: "getitem ?gone ''timestamp_path'' = Inr (VStr ''/ckpt/2022-03-30'')"
    and g2: "getitem ?gone ''real_monitor'' = Inr (VStr ''acc'')"
    by (simp_all add: getitem_def)
  from restore_width_mismatch [of disk manager ?gone] g1 nex
  have "on_load_checkpoint disk manager ?gone =
            (case getitem ?gone ''real_monitor'' of
               Inl err \<Rightarrow> Inl err
             | Inr m \<Rightarrow> Inr (manager\<lparr>real_monitor := m\<rparr>, [LogInfo]))"
    by blast
  then have c: "on_load_checkpoint disk manager ?gone
      = Inr (manager\<lparr>real_monitor := VStr ''acc''\<rparr>, [LogInfo])"
    by (simp add: g2)
  let ?unset = "manager\<lparr>save_topk := None\<rparr>"
  have u1: "getitem ?there ''timestamp_path'' = Inr (VStr ''/ckpt/2022-03-31'')"
    and u2: "getitem ?there ''_topk_model'' = Inr (VDict [])"
    and u3: "getitem ?there ''save_topk'' = Inr (VInt 3)"
    and u4: "getitem ?there ''real_monitor'' = Inr (VStr ''acc'')"
    by (simp_all add: getitem_def)
  have u5: "py_int (VInt 3 :: int pyval) = Inr 3" and u6: "save_topk ?unset = None"
    by simp_all
  from restore_width_mismatch [of disk ?unset ?there] u1 ex u2 u3 u5 u6
  have "on_load_checkpoint disk ?unset ?there =
            (case getitem ?there ''real_monitor'' of
               Inl err \<Rightarrow> Inl err
             | Inr m \<Rightarrow>
                 Inr (?unset\<lparr>timestamp_path := ''/ckpt/2022-03-31'',
                          topk_model := dict_update (topk_model ?unset) (topk_model ?unset),
                          real_monitor := m\<rparr>, [LogInfo]))"
    by blast
  then have d: "on_load_checkpoint disk ?unset ?there
      = Inr (manager\<lparr>save_topk := None, timestamp_path := ''/ckpt/2022-03-31'',
                     topk_model := [], real_monitor := VStr ''acc''\<rparr>, [LogInfo])"
    by (simp add: u4 tm0 dict_update_def)
  from a b c d show ?thesis by (intro conjI)
qed


text \<open>
  C8. The restore of a state that records one retained entry, in a run directory that
  exists, returns with an empty retention set: \<^verbatim>\<open>self._topk_model.update(self._topk_model)\<close>
  merges the callback's own entries, not the recorded ones. And the restore of a
  snapshot whose run directory is gone raises KeyError instead of going on with the
  fresh directory.
\<close>

theorem restore_drops_recorded_entries:
  "on_load_checkpoint disk manager
     [(''timestamp_path'', VStr ''/ckpt/2022-03-31''),
      (''_topk_model'', VDict [(''model-epoch_1-batch_20-acc_7'', Plain 7)]),
      (''save_topk'', VInt 2), (''real_monitor'', VStr ''acc'')]
     = Inr (manager\<lparr>timestamp_path := ''/ckpt/2022-03-31''\<rparr>, [LogInfo])
   \<and> topk_model (manager\<lparr>timestamp_path := ''/ckpt/2022-03-31''\<rparr>) = []
   \<and> on_load_checkpoint disk manager
        (on_save_checkpoint disk (manager\<lparr>timestamp_path := ''/ckpt/2022-03-30''\<rparr>))
        = Inl (KeyError ''real_monitor'')"
proof -
  have a: "on_load_checkpoint disk manager
     [(''timestamp_path'', VStr ''/ckpt/2022-03-31''),
      (''_topk_model'', VDict [(''model-epoch_1-batch_20-acc_7'', Plain 7)]),
      (''save_topk'', VInt 2), (''real_monitor'', VStr ''acc'')]
     = Inr (manager\<lparr>timestamp_path := ''/ckpt/2022-03-31''\<rparr>, [LogInfo])"
    by (simp add: on_load_checkpoint_def getitem_def disk_def manager_def dict_update_def)
  have b: "topk_model (manager\<lparr>timestamp_path := ''/ckpt/2022-03-31''\<rparr>) = []"
    by (simp add: manager_def)
  have c: "on_load_checkpoint disk manager
        (on_save_checkpoint disk (manager\<lparr>timestamp_path := ''/ckpt/2022-03-30''\<rparr>))
        = Inl (KeyError ''real_monitor'')"
    by (simp add: on_load_of_on_save disk_def absolute_def is_absolute_def)
  from a b c show ?thesis by (intro conjI)
qed


subsection \<open>The dataloader\<close>

lemma get_put_collator:
  "get_collator dl = Some c \<Longrightarrow> get_collator (put_collator dl c') = Some c'"
  by (auto simp: get_collator_def put_collator_def split: fnobj.splits option.splits)

lemma get_collator_None:
  "(get_collator dl = None) =
     (collator_of (collate_fn dl) = None
      \<and> (case wrapped (collate_fn dl) of None \<Rightarrow> True | Some w \<Rightarrow> collator_of w = None))"
  by (auto simp: get_collator_def split: option.splits)


text \<open>
  C10. \<^verbatim>\<open>_get_collator\<close> finds no collator exactly when neither the \<^verbatim>\<open>collate_fn\<close> nor
  the object it wraps is a \<^verbatim>\<open>Collator\<close>; then \<^verbatim>\<open>set_pad\<close> and \<^verbatim>\<open>set_ignore\<close> raise
  ValueError and the dataloader is unchanged. When there is a collator and its own
  method returns, both return that collator, which is the one the dataloader then
  holds; and neither returns a collator unless there is one.
\<close>

theorem collator_access:
  "(get_collator dl = None) =
     (collator_of (collate_fn dl) = None
      \<and> (case wrapped (collate_fn dl) of None \<Rightarrow> True | Some w \<Rightarrow> collator_of w = None))
   \<and> (get_collator dl = None \<longrightarrow>
         set_pad sp dl a = (Inl ValueError, dl) \<and> set_ignore si dl f = (Inl ValueError, dl))
   \<and> (\<forall>c c'. get_collator dl = Some c \<and> sp a c = (None, c') \<longrightarrow>
         set_pad sp dl a = (Inr c', put_collator dl c')
         \<and> get_collator (put_collator dl c') = Some c')
   \<and> (\<forall>c c'. get_collator dl = Some c \<and> si f c = (None, c') \<longrightarrow>
         set_ignore si dl f = (Inr c', put_collator dl c')
         \<and> get_collator (put_collator dl c') = Some c')
   \<and> ((\<exists>r. fst (set_pad sp dl a) = Inr r) \<longrightarrow> get_collator dl \<noteq> None)
   \<and> ((\<exists>r. fst (set_ignore si dl f) = Inr r) \<longrightarrow> get_collator dl \<noteq> None)"
proof -
  have none: "get_collator dl = None \<longrightarrow>
         set_pad sp dl a = (Inl ValueError, dl) \<and> set_ignore si dl f = (Inl ValueError, dl)"
    by (simp add: set_pad_def set_ignore_def)
  have pad: "\<forall>c c'. get_collator dl = Some c \<and> sp a c = (None, c') \<longrightarrow>
         set_pad sp dl a = (Inr c', put_collator dl c')
         \<and> get_collator (put_collator dl c') = Some c'"
    by (simp add: set_pad_def get_put_collator)
  have ign: "\<forall>c c'. get_collator dl = Some c \<and> si f c = (None, c') \<longrightarrow>
         set_ignore si dl f = (Inr c', put_collator dl c')
         \<and> get_collator (put_collator dl c') = Some c'"
    by (simp add: set_ignore_def get_put_collator)
  have only_pad: "(\<exists>r. fst (set_pad sp dl a) = Inr r) \<longrightarrow> get_collator dl \<noteq> None"
    by (cases "get_collator dl") (simp_all add: set_pad_def)
  have only_ign: "(\<exists>r. fst (set_ignore si dl f) = Inr r) \<longrightarrow> get_collator dl \<noteq> None"
    by (cases "get_collator dl") (simp_all add: set_ignore_def)
  from get_collator_None [of dl] none pad ign only_pad only_ign show ?thesis
    by (intro conjI)
qed
theorem collator_access_witness:
  "dataloader_init ([] :: string list) id None ArgNone
     = Inr \<lparr>collate_fn = collate_batch, cur_batch_indices = None\<rparr>
   \<and> set_pad (\<lambda>a c. (None, a # c)) \<lparr>collate_fn = collate_batch, cur_batch_indices = None\<rparr> ''words''
     = (Inl ValueError, \<lparr>collate_fn = collate_batch, cur_batch_indices = None\<rparr>)
   \<and> set_ignore (\<lambda>a c. (None, a # c)) \<lparr>collate_fn = collate_batch, cur_batch_indices = None\<rparr> ''words''
     = (Inl ValueError, \<lparr>collate_fn = collate_batch, cur_batch_indices = None\<rparr>)
   \<and> dataloader_init ([] :: string list) id None (ArgStr ''auto'')
     = Inr \<lparr>collate_fn = FnObj (Some []) None, cur_batch_indices = None\<rparr>
   \<and> set_pad (\<lambda>a c. (None, a # c)) \<lparr>collate_fn = FnObj (Some []) None, cur_batch_indices = None\<rparr> ''words''
     = (Inr [''words''], \<lparr>collate_fn = FnObj (Some [''words'']) None, cur_batch_indices = None\<rparr>)
   \<and> set_ignore (\<lambda>a c. (None, a # c))
        \<lparr>collate_fn = FnObj None (Some (FnObj (Some []) None)), cur_batch_indices = None\<rparr> ''words''
     = (Inr [''words''],
        \<lparr>collate_fn = FnObj None (Some (FnObj (Some [''words'']) None)), cur_batch_indices = None\<rparr>)"
proof -
  let ?m = "\<lambda>a c. (None :: error option, (a :: string) # c)"
  let ?plain = "\<lparr>collate_fn = collate_batch :: string list fnobj, cur_batch_indices = None\<rparr>"
  let ?auto = "\<lparr>collate_fn = FnObj (Some ([] :: string list)) None, cur_batch_indices = None\<rparr>"
  let ?wrap = "\<lparr>collate_fn = FnObj None (Some (FnObj (Some ([] :: string list)) None)),
                cur_batch_indices = None\<rparr>"
  have i1: "dataloader_init ([] :: string list) id None ArgNone = Inr ?plain"
    by (simp add: dataloader_init_def)
  have i2: "dataloader_init ([] :: string list) id None (ArgStr ''auto'') = Inr ?auto"
    by (simp add: dataloader_init_def)
  have g1: "get_collator ?plain = None"
    by (simp add: get_collator_def collate_batch_def)
  have g2: "get_collator ?auto = Some []"
    by (simp add: get_collator_def)
  have g3: "get_collator ?wrap = Some []"
    by (simp add: get_collator_def)
  have p2: "put_collator ?auto [''words'']
      = \<lparr>collate_fn = FnObj (Some [''words'']) None, cur_batch_indices = None\<rparr>"
    by (simp add: put_collator_def)
  have p3: "put_collator ?wrap [''words'']
      = \<lparr>collate_fn = FnObj None (Some (FnObj (Some [''words'']) None)), cur_batch_indices = None\<rparr>"
    by (simp add: put_collator_def)
  from collator_access [of ?plain ?m "''words''" ?m "''words''"] g1
  have r1: "set_pad ?m ?plain ''words'' = (Inl ValueError, ?plain)"
    and r2: "set_ignore ?m ?plain ''words'' = (Inl ValueError, ?plain)"
    by simp_all
  from collator_access [of ?auto ?m "''words''" ?m "''words''"] g2
  have r3: "set_pad ?m ?auto ''words'' = (Inr [''words''], put_collator ?auto [''words''])"
    by simp
  from collator_access [of ?wrap ?m "''words''" ?m "''words''"] g3
  have r4: "set_ignore ?m ?wrap ''words'' = (Inr [''words''], put_collator ?wrap [''words''])"
    by simp
  from i1 i2 r1 r2 r3 [unfolded p2] r4 [unfolded p3] show ?thesis
    by (intro conjI)
qed

section \<open>Top-k retention\<close>

subsection \<open>The largest values of a list\<close>

lemma insort_append_left:
  "B \<noteq> [] \<Longrightarrow> v \<le> hd B \<Longrightarrow> insort v (A @ B) = insort v A @ B"
  by (induction A) (auto simp: neq_Nil_conv)

lemma insort_append_right:
  "\<forall>a \<in> set A. a < v \<Longrightarrow> insort v (A @ B) = A @ insort v B"
  by (induction A) auto

lemma largest_fill: "length vs < k \<Longrightarrow> largest k (v # vs) = add_mset v (largest k vs)"
  by (simp add: largest_def)

lemma largest_all: "length vs \<le> k \<Longrightarrow> largest k vs = mset vs"
  by (simp add: largest_def)

lemma size_largest: "size (largest k vs) = min k (length vs)"
  by (simp add: largest_def)

lemma largest_subset: "largest k vs \<subseteq># mset vs"
proof -
  have "mset (drop (length vs - k) (sort vs)) \<subseteq># mset (sort vs)"
    by (metis append_take_drop_id mset_append mset_subset_eq_add_right)
  then show ?thesis by (simp add: largest_def)
qed

lemma sorted_hd_least: "sorted B \<Longrightarrow> x \<in> set B \<Longrightarrow> hd B \<le> x"
  by (cases B) auto

lemma largest_full:
  assumes k: "1 \<le> k" and len: "k \<le> length vs"
    and m_in: "m \<in># largest k vs" and m_least: "\<forall>x \<in># largest k vs. m \<le> x"
  shows "largest k (v # vs) =
           (if m < v then add_mset v (largest k vs - {#m#}) else largest k vs)"
proof -
  define j where "j = length vs - k"
  define A where "A = take j (sort vs)"
  define B where "B = drop j (sort vs)"
  have AB: "sort vs = A @ B" by (simp add: A_def B_def)
  have lenA: "length A = j" using len by (simp add: A_def j_def)
  have B_mset: "largest k vs = mset B" by (simp add: largest_def B_def j_def)
  have sAB: "sorted (A @ B)" using AB sorted_sort [of vs] by simp
  then have sB: "sorted B" by (simp add: sorted_append)
  from m_in B_mset have B_ne: "B \<noteq> []" by auto
  have hd_in: "hd B \<in> set B" using B_ne by simp
  have "hd B \<le> m" using sorted_hd_least [OF sB] m_in B_mset by simp
  moreover have "m \<le> hd B" using m_least hd_in B_mset by simp
  ultimately have m_hd: "m = hd B" by simp
  have idx: "length (v # vs) - k = Suc j" using len k by (simp add: j_def)
  have step: "largest k (v # vs) = mset (drop (Suc j) (insort v (A @ B)))"
    unfolding largest_def idx by (simp add: AB)
  show ?thesis
  proof (cases "m < v")
    case False
    then have "v \<le> hd B" using m_hd by simp
    then have "insort v (A @ B) = insort v A @ B"
      using B_ne by (rule insort_append_left [rotated])
    then have "drop (Suc j) (insort v (A @ B)) = B"
      using lenA by simp
    with step False B_mset show ?thesis by simp
  next
    case True
    have "\<forall>a \<in> set A. a \<le> hd B"
      using sAB hd_in by (auto simp: sorted_append)
    then have "\<forall>a \<in> set A. a < v" using True m_hd by auto
    then have ins: "insort v (A @ B) = A @ insort v B"
      by (rule insort_append_right)
    obtain b B' where B: "B = b # B'" using B_ne by (cases B) auto
    have "b < v" using True m_hd B by simp
    then have "\<not> v \<le> b" by simp
    then have "insort v B = b # insort v B'" using B by simp
    then have "drop (Suc j) (insort v (A @ B)) = insort v B'"
      using ins lenA by simp
    then have "largest k (v # vs) = add_mset v (mset B')"
      using step by simp
    moreover have "largest k vs - {#m#} = mset B'"
      using B_mset B m_hd by simp
    ultimately show ?thesis using True by simp
  qed
qed


subsection \<open>Scans and dictionaries\<close>

lemma first_min_in: "first_min key b xs \<in> set (b # xs)"
  by (induction xs arbitrary: b) auto

lemma first_min_least: "\<forall>y \<in> set (b # xs). key (first_min key b xs) \<le> key y"
proof (induction xs arbitrary: b)
  case Nil
  then show ?case by simp
next
  case (Cons x xs)
  let ?b = "if key x < key b then x else b"
  from Cons.IH [of ?b]
  have rest: "\<forall>y \<in> set xs. key (first_min key ?b xs) \<le> key y"
    and best: "key (first_min key ?b xs) \<le> key ?b"
    by simp_all
  from best have "key (first_min key ?b xs) \<le> key b" and "key (first_min key ?b xs) \<le> key x"
    by (auto split: if_splits)
  with rest show ?case by simp
qed

lemma first_max_in: "first_max key b xs \<in> set (b # xs)"
  by (induction xs arbitrary: b) auto

lemma first_max_greatest: "\<forall>y \<in> set (b # xs). key y \<le> key (first_max key b xs)"
proof (induction xs arbitrary: b)
  case Nil
  then show ?case by simp
next
  case (Cons x xs)
  let ?b = "if key b < key x then x else b"
  from Cons.IH [of ?b]
  have rest: "\<forall>y \<in> set xs. key y \<le> key (first_max key ?b xs)"
    and best: "key ?b \<le> key (first_max key ?b xs)"
    by simp_all
  from best have "key b \<le> key (first_max key ?b xs)" and "key x \<le> key (first_max key ?b xs)"
    by (auto split: if_splits)
  with rest show ?case by simp
qed

lemma least_valuable_model_entry:
  assumes "d \<noteq> []"
  shows "\<exists>lv lvv. (lv, lvv) \<in> set d \<and> least_valuable_model lb d = Inr lv
           \<and> (\<forall>kv \<in> set d. if lb then val_of lvv \<le> val_of (snd kv)
                              else val_of (snd kv) \<le> val_of lvv)"
proof -
  obtain x rest where d: "d = x # rest" using assms by (cases d) auto
  show ?thesis
  proof (cases lb)
    case True
    let ?m = "first_min (\<lambda>kv. val_of (snd kv)) x rest"
    have "(fst ?m, snd ?m) \<in> set d"
      using first_min_in [of "\<lambda>kv. val_of (snd kv)" x rest] d by simp
    moreover have "least_valuable_model lb d = Inr (fst ?m)"
      using True d by (simp add: least_valuable_model_def py_min_def)
    moreover have "\<forall>kv \<in> set d. val_of (snd ?m) \<le> val_of (snd kv)"
      using first_min_least [of x rest "\<lambda>kv. val_of (snd kv)"] d by simp
    ultimately show ?thesis using True
      by (intro exI [of _ "fst ?m"] exI [of _ "snd ?m"]) simp
  next
    case False
    let ?m = "first_max (\<lambda>kv. val_of (snd kv)) x rest"
    have "(fst ?m, snd ?m) \<in> set d"
      using first_max_in [of "\<lambda>kv. val_of (snd kv)" x rest] d by simp
    moreover have "least_valuable_model lb d = Inr (fst ?m)"
      using False d by (simp add: least_valuable_model_def py_max_def)
    moreover have "\<forall>kv \<in> set d. val_of (snd kv) \<le> val_of (snd ?m)"
      using first_max_greatest [of x rest "\<lambda>kv. val_of (snd kv)"] d by simp
    ultimately show ?thesis using False
      by (intro exI [of _ "fst ?m"] exI [of _ "snd ?m"]) simp
  qed
qed

lemma update_fresh: "k \<notin> fst ` set d \<Longrightarrow> AList.update k v d = d @ [(k, v)]"
  by (induction d) auto

lemma delete_append: "AList.delete k (d @ e) = AList.delete k d @ AList.delete k e"
  by (simp add: AList.delete_eq)

lemma delete_entry:
  assumes "distinct (map fst d)" and "(k, v) \<in> set d"
  shows "mset (map f (AList.delete k d)) = mset (map f d) - {#f (k, v)#}"
    and "Suc (length (AList.delete k d)) = length d"
  using assms
proof (induction d)
  case Nil
  {
    case 1
    then show ?case by simp
  next
    case 2
    then show ?case by simp
  }
next
  case (Cons x d)
  {
    case 1
    show ?case
    proof (cases "fst x = k")
      case True
      with 1 have "x = (k, v)" by (cases x) (auto simp: rev_image_eqI)
      moreover have "k \<notin> fst ` set d" using 1 True by auto
      ultimately show ?thesis by simp
    next
      case False
      with 1 have "(k, v) \<in> set d" and "distinct (map fst d)" by auto
      then have ih: "mset (map f (AList.delete k d)) = mset (map f d) - {#f (k, v)#}"
        by (intro Cons.IH(1))
      have "f (k, v) \<in># mset (map f d)" using \<open>(k, v) \<in> set d\<close> by auto
      then show ?thesis using False ih by (cases x) (simp add: AList.delete_eq)
    qed
  next
    case 2
    show ?case
    proof (cases "fst x = k")
      case True
      moreover have "k \<notin> fst ` set d" using 2 True by auto
      ultimately show ?thesis by (cases x) simp
    next
      case False
      with 2 have "(k, v) \<in> set d" and "distinct (map fst d)" by auto
      then have "Suc (length (AList.delete k d)) = length d"
        by (intro Cons.IH(2))
      then show ?thesis using False by (cases x) (simp add: AList.delete_eq)
    qed
  }
qed

lemma getitem_entry:
  "distinct (map fst d) \<Longrightarrow> (k, v) \<in> set d \<Longrightarrow> getitem d k = Inr v"
  by (simp add: getitem_def)

subsection \<open>One validation\<close>

lemma save_fields:
  "save (cb\<lparr>real_monitor := m\<rparr>) n = save cb n"
  "save (cb\<lparr>real_monitor := m, topk_model := d\<rparr>) n = save cb n"
  "save (cb\<lparr>real_monitor := m, topk_model := d, topn := t\<rparr>) n = save cb n"
  by (simp_all add: save_def)

lemma counts_save: "admissions (save cb n) = 1" "evictions (save cb n) = 0"
  by (simp_all add: save_def admissions_def evictions_def Let_def)

lemma counts_simps:
  "admissions [] = 0" "evictions [] = 0"
  "admissions (a @ b) = admissions a + admissions b"
  "evictions (a @ b) = evictions a + evictions b"
  "admissions (Rm p # a) = admissions a" "evictions (Rm p # a) = Suc (evictions a)"
  by (simp_all add: admissions_def evictions_def)

lemma length_update_le: "length (AList.update k v d) \<le> Suc (length d)"
  by (induction d) auto

lemma do_save_topk_unset:
  "save_topk cb = None \<Longrightarrow> do_save_topk fmt cb tr res = Inr (cb, [])"
  by (simp add: do_save_topk_def)

lemma do_save_topk_fill:
  assumes "save_topk cb = Some k" and "topn cb < k"
  shows "do_save_topk fmt cb tr res =
     Inr (cb\<lparr>real_monitor := VStr (fst res),
              topk_model := AList.update (candidate_folder fmt (variant cb) (tr, res)) (snd res)
                              (topk_model cb),
              topn := topn cb + 1\<rparr>,
          save cb (candidate_folder fmt (variant cb) (tr, res)))"
  using assms
  by (simp add: do_save_topk_def get_validate_metric_def topk_folder_def batch_folder_def
      candidate_folder_def save_def Let_def)

lemma do_save_topk_full:
  assumes "save_topk cb = Some k" and "\<not> topn cb < k"
    and "least_valuable_model (larger_better cb) (topk_model cb) = Inr lv"
    and "getitem (topk_model cb) lv = Inr lvv"
  shows "do_save_topk fmt cb tr res =
     (if (larger_better cb \<and> val_of lvv < val_of (snd res))
          \<or> (\<not> larger_better cb \<and> val_of (snd res) < val_of lvv)
      then
        (if int (length (AList.delete lv
                   (AList.update (candidate_folder fmt (variant cb) (tr, res)) (snd res)
                      (topk_model cb)))) = k \<and> k = topn cb
         then Inr (cb\<lparr>real_monitor := VStr (fst res),
                       topk_model := AList.delete lv
                         (AList.update (candidate_folder fmt (variant cb) (tr, res)) (snd res)
                            (topk_model cb))\<rparr>,
                   Rm (joinpath (timestamp_path cb) lv)
                     # save cb (candidate_folder fmt (variant cb) (tr, res)))
         else Inl AssertionError)
      else
        (if int (length (topk_model cb)) = k \<and> k = topn cb
         then Inr (cb\<lparr>real_monitor := VStr (fst res)\<rparr>, [])
         else Inl AssertionError))"
proof -
  have name: "topk_folder fmt (cb\<lparr>real_monitor := VStr (fst res)\<rparr>) tr (fst res) (snd res)
      = candidate_folder fmt (variant cb) (tr, res)"
    by (simp add: topk_folder_def batch_folder_def candidate_folder_def)
  have sv: "\<And>d n. save (cb\<lparr>real_monitor := VStr (fst res), topk_model := d\<rparr>) n = save cb n"
    by (simp add: save_def)
  have lt: "\<not> topn (cb\<lparr>real_monitor := VStr (fst res)\<rparr>) < k"
    using assms(2) by simp
  show ?thesis
    unfolding do_save_topk_def get_validate_metric_def
    using assms(1,3,4) lt
    by (cases "larger_better cb"; cases "val_of lvv < val_of (snd res)";
        cases "val_of (snd res) < val_of lvv")
       (simp_all add: name sv Let_def split del: if_split cong: if_cong)
qed

text \<open>What one returning validation does to the counters, whatever the folder names.\<close>

lemma do_save_topk_counts:
  assumes k: "save_topk cb = Some k" and ret: "do_save_topk fmt cb tr res = Inr (cb', ops)"
  shows "save_topk cb' = Some k \<and> larger_better cb' = larger_better cb
         \<and> variant cb' = variant cb \<and> timestamp_path cb' = timestamp_path cb
         \<and> (if topn cb < k
             then topn cb' = topn cb + 1 \<and> admissions ops = 1 \<and> evictions ops = 0
                  \<and> length (topk_model cb') \<le> Suc (length (topk_model cb))
             else topn cb' = topn cb \<and> topn cb = k \<and> int (length (topk_model cb')) = k
                  \<and> evictions ops = admissions ops \<and> admissions ops \<le> 1)"
proof (cases "topn cb < k")
  case True
  from ret do_save_topk_fill [OF k True, of fmt tr res]
  have cb': "cb' = cb\<lparr>real_monitor := VStr (fst res),
              topk_model := AList.update (candidate_folder fmt (variant cb) (tr, res)) (snd res)
                              (topk_model cb),
              topn := topn cb + 1\<rparr>"
    and ops: "ops = save cb (candidate_folder fmt (variant cb) (tr, res))"
    by simp_all
  show ?thesis
    using True k length_update_le [of "candidate_folder fmt (variant cb) (tr, res)" "snd res" "topk_model cb"]
    by (simp add: cb' ops counts_save)
next
  case False
  from ret obtain lv where lv: "least_valuable_model (larger_better cb) (topk_model cb) = Inr lv"
    using k False by (cases "least_valuable_model (larger_better cb) (topk_model cb)")
      (simp_all add: do_save_topk_def get_validate_metric_def Let_def)
  from ret obtain lvv where lvv: "getitem (topk_model cb) lv = Inr lvv"
    using k False lv by (cases "getitem (topk_model cb) lv")
      (simp_all add: do_save_topk_def get_validate_metric_def Let_def)
  let ?better = "(larger_better cb \<and> val_of lvv < val_of (snd res))
          \<or> (\<not> larger_better cb \<and> val_of (snd res) < val_of lvv)"
  let ?name = "candidate_folder fmt (variant cb) (tr, res)"
  let ?tm = "AList.delete lv (AList.update ?name (snd res) (topk_model cb))"
  note full = do_save_topk_full [OF k False lv lvv, of fmt tr res]
  show ?thesis
  proof (cases ?better)
    case True
    with full have eq: "do_save_topk fmt cb tr res =
        (if int (length ?tm) = k \<and> k = topn cb
         then Inr (cb\<lparr>real_monitor := VStr (fst res), topk_model := ?tm\<rparr>,
                   Rm (joinpath (timestamp_path cb) lv) # save cb ?name)
         else Inl AssertionError)"
      by simp
    from ret eq have ok: "int (length ?tm) = k \<and> k = topn cb"
      by (simp split: if_splits)
    with ret eq have cb': "cb' = cb\<lparr>real_monitor := VStr (fst res), topk_model := ?tm\<rparr>"
      and ops: "ops = Rm (joinpath (timestamp_path cb) lv) # save cb ?name"
      by simp_all
    show ?thesis
      using False k ok by (simp add: cb' ops counts_save counts_simps)
  next
    case no: False
    with full have eq: "do_save_topk fmt cb tr res =
        (if int (length (topk_model cb)) = k \<and> k = topn cb
         then Inr (cb\<lparr>real_monitor := VStr (fst res)\<rparr>, [])
         else Inl AssertionError)"
      by simp
    from ret eq have ok: "int (length (topk_model cb)) = k \<and> k = topn cb"
      by (simp split: if_splits)
    with ret eq have cb': "cb' = cb\<lparr>real_monitor := VStr (fst res)\<rparr>" and ops: "ops = []"
      by simp_all
    show ?thesis
      using False k ok by (simp add: cb' ops counts_simps)
  qed
qed

lemma step_fill_fresh:
  assumes "save_topk cb = Some k" and "topn cb < k"
    and "candidate_folder fmt (variant cb) (tr, res) \<notin> fst ` set (topk_model cb)"
  shows "do_save_topk fmt cb tr res =
     Inr (cb\<lparr>real_monitor := VStr (fst res),
              topk_model := topk_model cb @ [(candidate_folder fmt (variant cb) (tr, res), snd res)],
              topn := topn cb + 1\<rparr>,
          save cb (candidate_folder fmt (variant cb) (tr, res)))"
  using do_save_topk_fill [OF assms(1,2), of fmt tr res] update_fresh [OF assms(3), of "snd res"]
  by simp

lemma step_full_fresh:
  assumes k: "save_topk cb = Some k" and full: "topn cb = k"
    and len: "int (length (topk_model cb)) = k" and pos: "1 \<le> k"
    and dist: "distinct (map fst (topk_model cb))"
    and fresh: "candidate_folder fmt (variant cb) (tr, res) \<notin> fst ` set (topk_model cb)"
  shows "\<exists>lv lvv. (lv, lvv) \<in> set (topk_model cb)
       \<and> least_valuable_model (larger_better cb) (topk_model cb) = Inr lv
       \<and> (\<forall>kv \<in> set (topk_model cb).
             if larger_better cb then val_of lvv \<le> val_of (snd kv)
             else val_of (snd kv) \<le> val_of lvv)
       \<and> do_save_topk fmt cb tr res =
           (if (larger_better cb \<and> val_of lvv < val_of (snd res))
                \<or> (\<not> larger_better cb \<and> val_of (snd res) < val_of lvv)
            then Inr (cb\<lparr>real_monitor := VStr (fst res),
                          topk_model := AList.delete lv (topk_model cb)
                            @ [(candidate_folder fmt (variant cb) (tr, res), snd res)]\<rparr>,
                      Rm (joinpath (timestamp_path cb) lv)
                        # save cb (candidate_folder fmt (variant cb) (tr, res)))
            else Inr (cb\<lparr>real_monitor := VStr (fst res)\<rparr>, []))"
proof -
  let ?tm = "topk_model cb"
  let ?name = "candidate_folder fmt (variant cb) (tr, res)"
  from len pos have ne: "?tm \<noteq> []" by auto
  from least_valuable_model_entry [OF ne, of "larger_better cb"]
  obtain lv lvv where entry: "(lv, lvv) \<in> set ?tm"
    and lvm: "least_valuable_model (larger_better cb) ?tm = Inr lv"
    and ext: "\<forall>kv \<in> set ?tm. if larger_better cb then val_of lvv \<le> val_of (snd kv)
                              else val_of (snd kv) \<le> val_of lvv"
    by blast
  have gi: "getitem ?tm lv = Inr lvv" by (rule getitem_entry [OF dist entry])
  have nlt: "\<not> topn cb < k" using full by simp
  have "lv \<in> fst ` set ?tm" using entry by (auto simp: rev_image_eqI)
  with fresh have ne_name: "?name \<noteq> lv" by auto
  have upd: "AList.delete lv (AList.update ?name (snd res) ?tm) = AList.delete lv ?tm @ [(?name, snd res)]"
    using ne_name by (simp add: update_fresh [OF fresh] delete_append)
  have "Suc (length (AList.delete lv ?tm)) = length ?tm"
    by (rule delete_entry(2) [OF dist entry])
  then have len': "int (length (AList.delete lv ?tm @ [(?name, snd res)])) = k"
    using len by simp
  have "do_save_topk fmt cb tr res =
           (if (larger_better cb \<and> val_of lvv < val_of (snd res))
                \<or> (\<not> larger_better cb \<and> val_of (snd res) < val_of lvv)
            then Inr (cb\<lparr>real_monitor := VStr (fst res),
                          topk_model := AList.delete lv ?tm @ [(?name, snd res)]\<rparr>,
                      Rm (joinpath (timestamp_path cb) lv) # save cb ?name)
            else Inr (cb\<lparr>real_monitor := VStr (fst res)\<rparr>, []))"
    unfolding do_save_topk_full [OF k nlt lvm gi] upd
    using len' len full by (simp split del: if_split cong: if_cong)
  with entry lvm ext show ?thesis by blast
qed

subsection \<open>Runs of validations\<close>

lemma step_retention_inv:
  assumes inv: "retention_inv k cb seen"
    and fresh: "candidate_folder fmt (variant cb) (tr, res) \<notin> fst ` set (topk_model cb)"
  shows "\<exists>cb' ops. do_save_topk fmt cb tr res = Inr (cb', ops)
       \<and> retention_inv k cb' (val_of (snd res) # seen)
       \<and> variant cb' = variant cb
       \<and> fst ` set (topk_model cb')
           \<subseteq> insert (candidate_folder fmt (variant cb) (tr, res)) (fst ` set (topk_model cb))"
proof -
  let ?tm = "topk_model cb"
  let ?name = "candidate_folder fmt (variant cb) (tr, res)"
  let ?v = "val_of (snd res)"
  let ?vals = "\<lambda>d. mset (map (\<lambda>kv. val_of (snd kv)) d)"
  from inv have k: "save_topk cb = Some k" and pos: "1 \<le> k"
    and dist: "distinct (map fst ?tm)" and tn: "topn cb = int (length ?tm)"
    and len: "length ?tm = min (nat k) (length seen)"
    and vals: "larger_better cb \<longrightarrow> ?vals ?tm = largest (nat k) seen"
    by (simp_all add: retention_inv_def)
  show ?thesis
  proof (cases "topn cb < k")
    case True
    let ?cb' = "cb\<lparr>real_monitor := VStr (fst res), topk_model := ?tm @ [(?name, snd res)],
                  topn := topn cb + 1\<rparr>"
    have run: "do_save_topk fmt cb tr res = Inr (?cb', save cb ?name)"
      by (rule step_fill_fresh [OF k True fresh])
    from True tn len pos have short: "length seen < nat k" and same: "length ?tm = length seen"
      by (auto simp: min_def split: if_splits)
    have "retention_inv k ?cb' (?v # seen)"
      using k pos dist tn fresh vals short same
      by (auto simp: retention_inv_def largest_fill)
    with run show ?thesis by auto
  next
    case False
    with tn len pos have full: "topn cb = k" and lenk: "int (length ?tm) = k"
      and enough: "nat k \<le> length seen"
      by (auto simp: min_def split: if_splits)
    from step_full_fresh [OF k full lenk pos dist fresh]
    obtain lv lvv where entry: "(lv, lvv) \<in> set ?tm"
      and ext: "\<forall>kv \<in> set ?tm. if larger_better cb then val_of lvv \<le> val_of (snd kv)
                              else val_of (snd kv) \<le> val_of lvv"
      and run: "do_save_topk fmt cb tr res =
           (if (larger_better cb \<and> val_of lvv < ?v) \<or> (\<not> larger_better cb \<and> ?v < val_of lvv)
            then Inr (cb\<lparr>real_monitor := VStr (fst res),
                          topk_model := AList.delete lv ?tm @ [(?name, snd res)]\<rparr>,
                      Rm (joinpath (timestamp_path cb) lv) # save cb ?name)
            else Inr (cb\<lparr>real_monitor := VStr (fst res)\<rparr>, []))"
      by blast
    have keys_del: "fst ` set (AList.delete lv ?tm) \<subseteq> fst ` set ?tm"
      by (rule dom_delete_subset)
    have len_del: "Suc (length (AList.delete lv ?tm)) = length ?tm"
      by (rule delete_entry(2) [OF dist entry])
    have vals_del: "?vals (AList.delete lv ?tm) = ?vals ?tm - {#val_of lvv#}"
      using delete_entry(1) [OF dist entry, of "\<lambda>kv. val_of (snd kv)"] by simp
    have largest_step: "larger_better cb \<Longrightarrow>
        largest (nat k) (?v # seen) =
          (if val_of lvv < ?v then add_mset ?v (largest (nat k) seen - {#val_of lvv#})
           else largest (nat k) seen)"
    proof -
      assume lb: "larger_better cb"
      with vals have eq: "?vals ?tm = largest (nat k) seen" by simp
      have "val_of lvv \<in># ?vals ?tm" using entry by force
      then have m_in: "val_of lvv \<in># largest (nat k) seen" unfolding eq .
      have "\<forall>x \<in># ?vals ?tm. val_of lvv \<le> x" using ext lb by auto
      then have m_least: "\<forall>x \<in># largest (nat k) seen. val_of lvv \<le> x" unfolding eq .
      from pos have "1 \<le> nat k" by simp
      from largest_full [OF this enough m_in m_least] show ?thesis .
    qed
    show ?thesis
    proof (cases "(larger_better cb \<and> val_of lvv < ?v) \<or> (\<not> larger_better cb \<and> ?v < val_of lvv)")
      case better: True
      let ?cb' = "cb\<lparr>real_monitor := VStr (fst res),
                    topk_model := AList.delete lv ?tm @ [(?name, snd res)]\<rparr>"
      from run better have r: "do_save_topk fmt cb tr res =
          Inr (?cb', Rm (joinpath (timestamp_path cb) lv) # save cb ?name)"
        by (simp split del: if_split cong: if_cong)
      have d: "distinct (map fst (AList.delete lv ?tm @ [(?name, snd res)]))"
        using distinct_delete [OF dist, of lv] keys_del fresh by auto
      have l: "length (AList.delete lv ?tm @ [(?name, snd res)]) = min (nat k) (length (?v # seen))"
        using len_del lenk enough by (simp add: min_def)
      have t: "topn cb = int (length (AList.delete lv ?tm @ [(?name, snd res)]))"
        using len_del tn by simp
      have v: "larger_better cb \<longrightarrow>
          ?vals (AList.delete lv ?tm @ [(?name, snd res)]) = largest (nat k) (?v # seen)"
        using largest_step better vals vals_del by auto
      have "retention_inv k ?cb' (?v # seen)"
        using k pos d l t v by (simp add: retention_inv_def)
      moreover have "fst ` set (topk_model ?cb') \<subseteq> insert ?name (fst ` set ?tm)"
        using keys_del by auto
      ultimately show ?thesis using r by auto
    next
      case worse: False
      let ?cb' = "cb\<lparr>real_monitor := VStr (fst res)\<rparr>"
      from run worse have r: "do_save_topk fmt cb tr res = Inr (?cb', [])"
        by (simp split del: if_split cong: if_cong)
      have l: "length ?tm = min (nat k) (length (?v # seen))"
        using lenk enough by (simp add: min_def)
      have v: "larger_better cb \<longrightarrow> ?vals ?tm = largest (nat k) (?v # seen)"
        using largest_step worse vals by auto
      have "retention_inv k ?cb' (?v # seen)"
        using k pos dist tn l v by (simp add: retention_inv_def)
      with r show ?thesis by auto
    qed
  qed
qed

lemma disjoint_step: "x \<notin> N \<Longrightarrow> K \<inter> N = {} \<Longrightarrow> K1 \<subseteq> insert x K \<Longrightarrow> K1 \<inter> N = {}"
  by blast

lemma validate_all_retention:
  assumes "retention_inv k cb seen"
    and "distinct (map (candidate_folder fmt (variant cb)) cs)"
    and "fst ` set (topk_model cb) \<inter> candidate_folder fmt (variant cb) ` set cs = {}"
  shows "\<exists>cb' ops. validate_all fmt cb cs = Inr (cb', ops)
       \<and> retention_inv k cb' (rev (map candidate_value cs) @ seen)
       \<and> variant cb' = variant cb \<and> timestamp_path cb' = timestamp_path cb
       \<and> larger_better cb' = larger_better cb"
  using assms
proof (induction cs arbitrary: cb seen)
  case Nil
  then show ?case by simp
next
  case (Cons c cs)
  let ?name = "candidate_folder fmt (variant cb)"
  have c: "(fst c, snd c) = c" by simp
  have k: "save_topk cb = Some k"
    using Cons.prems(1) unfolding retention_inv_def by blast
  have n0: "?name c \<notin> fst ` set (topk_model cb)"
    using Cons.prems(3) by auto
  then have fresh: "?name (fst c, snd c) \<notin> fst ` set (topk_model cb)"
    unfolding c .
  from step_retention_inv [OF Cons.prems(1) fresh]
  obtain cb1 ops1 where run1: "do_save_topk fmt cb (fst c) (snd c) = Inr (cb1, ops1)"
    and inv1: "retention_inv k cb1 (val_of (snd (snd c)) # seen)"
    and var1: "variant cb1 = variant cb"
    and keys1: "fst ` set (topk_model cb1) \<subseteq> insert (?name (fst c, snd c)) (fst ` set (topk_model cb))"
    by blast
  have ts1: "timestamp_path cb1 = timestamp_path cb"
    using do_save_topk_counts [OF k run1] by (elim conjE)
  have lb1: "larger_better cb1 = larger_better cb"
    using do_save_topk_counts [OF k run1] by (elim conjE)
  have d0: "distinct (map ?name cs)" and n1: "?name c \<notin> ?name ` set cs"
    using Cons.prems(2) by simp_all
  have d: "distinct (map (candidate_folder fmt (variant cb1)) cs)"
    unfolding var1 by (rule d0)
  have n2: "fst ` set (topk_model cb) \<inter> ?name ` set cs = {}"
    using Cons.prems(3) by auto
  have keys1': "fst ` set (topk_model cb1) \<subseteq> insert (?name c) (fst ` set (topk_model cb))"
    using keys1 unfolding c .
  have disj: "fst ` set (topk_model cb1) \<inter> candidate_folder fmt (variant cb1) ` set cs = {}"
    unfolding var1 by (rule disjoint_step [OF n1 n2 keys1'])
  from Cons.IH [OF inv1 d disj]
  obtain cb' ops2 where run2: "validate_all fmt cb1 cs = Inr (cb', ops2)"
    and inv2: "retention_inv k cb' (rev (map candidate_value cs) @ val_of (snd (snd c)) # seen)"
    and var2: "variant cb' = variant cb1" and ts2: "timestamp_path cb' = timestamp_path cb1"
    and lb2: "larger_better cb' = larger_better cb1"
    by blast
  have run: "validate_all fmt cb (c # cs) = Inr (cb', ops1 @ ops2)"
    using run1 run2 by (simp add: on_validate_end_def)
  have seen: "rev (map candidate_value (c # cs)) @ seen
      = rev (map candidate_value cs) @ val_of (snd (snd c)) # seen"
    by (simp add: candidate_value_def)
  have inv: "retention_inv k cb' (rev (map candidate_value (c # cs)) @ seen)"
    unfolding seen by (rule inv2)
  have var: "variant cb' = variant cb" using var1 var2 by simp
  have ts: "timestamp_path cb' = timestamp_path cb" using ts1 ts2 by simp
  have lb: "larger_better cb' = larger_better cb" using lb1 lb2 by simp
  from run inv var ts lb show ?case by blast
qed

lemma validate_all_counts:
  assumes "save_topk cb = Some k" and "topn cb \<le> k"
    and "int (length (topk_model cb)) \<le> topn cb"
    and "validate_all fmt cb cs = Inr (cb', ops)"
  shows "save_topk cb' = Some k
       \<and> topn cb' = min (topn cb + int (admissions ops)) k
       \<and> int (length (topk_model cb')) \<le> topn cb'
       \<and> int (evictions ops) = topn cb + int (admissions ops) - topn cb'"
  using assms
proof (induction cs arbitrary: cb ops)
  case Nil
  then show ?case by (simp add: counts_simps)
next
  case (Cons c cs)
  from Cons.prems(4) obtain cb1 ops1 ops2
    where run1: "do_save_topk fmt cb (fst c) (snd c) = Inr (cb1, ops1)"
      and run2: "validate_all fmt cb1 cs = Inr (cb', ops2)"
      and ops: "ops = ops1 @ ops2"
    by (auto simp: on_validate_end_def split: sum.splits prod.splits)
  note step = do_save_topk_counts [OF Cons.prems(1) run1]
  from step have k1: "save_topk cb1 = Some k" by simp
  show ?case
  proof (cases "topn cb < k")
    case True
    with step have t1: "topn cb1 = topn cb + 1" and a1: "admissions ops1 = 1"
      and e1: "evictions ops1 = 0"
      and l1: "length (topk_model cb1) \<le> Suc (length (topk_model cb))"
      by simp_all
    have le1: "topn cb1 \<le> k" using True t1 by simp
    have len1: "int (length (topk_model cb1)) \<le> topn cb1"
      using l1 t1 Cons.prems(3) by simp
    from Cons.IH [OF k1 le1 len1 run2]
    have r: "save_topk cb' = Some k" "topn cb' = min (topn cb1 + int (admissions ops2)) k"
      "int (length (topk_model cb')) \<le> topn cb'"
      "int (evictions ops2) = topn cb1 + int (admissions ops2) - topn cb'"
      by blast+
    have adm: "int (admissions ops) = 1 + int (admissions ops2)"
      and ev: "int (evictions ops) = int (evictions ops2)"
      using a1 e1 by (simp_all add: ops counts_simps)
    have "topn cb' = min (topn cb + int (admissions ops)) k"
      using r(2) t1 adm by (simp add: add.assoc)
    moreover have "int (evictions ops) = topn cb + int (admissions ops) - topn cb'"
      using r(4) t1 adm ev by simp
    ultimately show ?thesis using r(1,3) by blast
  next
    case False
    with step have t1: "topn cb1 = topn cb" and full: "topn cb = k"
      and l1: "int (length (topk_model cb1)) = k"
      and e1: "evictions ops1 = admissions ops1"
      by simp_all
    have le1: "topn cb1 \<le> k" using t1 full by simp
    have len1: "int (length (topk_model cb1)) \<le> topn cb1" using l1 t1 full by simp
    from Cons.IH [OF k1 le1 len1 run2]
    have r: "save_topk cb' = Some k" "topn cb' = min (topn cb1 + int (admissions ops2)) k"
      "int (length (topk_model cb')) \<le> topn cb'"
      "int (evictions ops2) = topn cb1 + int (admissions ops2) - topn cb'"
      by blast+
    have adm: "int (admissions ops) = int (admissions ops1) + int (admissions ops2)"
      and ev: "int (evictions ops) = int (admissions ops1) + int (evictions ops2)"
      using e1 by (simp_all add: ops counts_simps)
    from r(2) t1 full have tk: "topn cb' = k" by simp
    have "topn cb' = min (topn cb + int (admissions ops)) k"
      using tk full by simp
    moreover have "int (evictions ops) = topn cb + int (admissions ops) - topn cb'"
      using r(4) t1 tk full adm ev by simp
    ultimately show ?thesis using r(1,3) by blast
  qed
qed

lemma init_retention_inv:
  assumes "init e c = Inr (cb, ops)" and "cfg_save_topk c = Some k"
  shows "retention_inv k cb []"
  using init_fields(3,4,5,6) [OF assms(1)] assms(2)
  by (simp add: retention_inv_def largest_def)

lemma validations_distinct:
  "distinct (map (candidate_folder show_metric (cfg_variant settings)) validations)"
  by (simp add: validations_def candidate_folder_def settings_def counters_def show_metric_def
      str_int_def digit_char_def)

lemma settings_topk: "cfg_save_topk settings = Some 2" "cfg_larger_better settings"
  by (simp_all add: settings_def)





text \<open>
  C3. For a callback built by \<^verbatim>\<open>__init__\<close> with \<^verbatim>\<open>save_topk\<close> set to \<open>k\<close> (either
  comparison direction) and any run of validations that returns: the size of the
  retention set is at most \<open>k\<close>, \<^verbatim>\<open>_topn\<close> is the minimum of the number of admissions
  (saves) and \<open>k\<close>, and the number of evictions (removals) is the number of admissions
  less \<^verbatim>\<open>_topn\<close>. From a full set (\<^verbatim>\<open>_topn\<close> equal to \<open>k\<close>) a further validation that
  returns evicts exactly as often as it admits, at most once, and leaves the size and
  \<^verbatim>\<open>_topn\<close> at \<open>k\<close>. A run whose validations have distinct folder names does return.
\<close>

theorem topk_counts:
  assumes "init e c = Inr (cb0, ops0)" and "cfg_save_topk c = Some k"
  shows "(\<forall>cb ops. validate_all fmt cb0 cs = Inr (cb, ops) \<longrightarrow>
            int (length (topk_model cb)) \<le> k
            \<and> topn cb = min (int (admissions ops)) k
            \<and> int (evictions ops) = int (admissions ops) - topn cb
            \<and> (\<forall>tr res cb' ops'.
                  topn cb = k \<and> do_save_topk fmt cb tr res = Inr (cb', ops') \<longrightarrow>
                    evictions ops' = admissions ops' \<and> admissions ops' \<le> 1
                    \<and> int (length (topk_model cb')) = k \<and> topn cb' = k))
       \<and> (distinct (map (candidate_folder fmt (cfg_variant c)) cs) \<longrightarrow>
            (\<exists>cb ops. validate_all fmt cb0 cs = Inr (cb, ops)))"
proof (intro conjI allI impI)
  have k0: "save_topk cb0 = Some k" and t0: "topn cb0 = 0" and m0: "topk_model cb0 = []"
    and pos: "1 \<le> k" and v0: "variant cb0 = cfg_variant c"
    using init_fields(3,4,5,6,11) [OF assms(1)] assms(2) by simp_all
  {
    fix cb ops
    assume run: "validate_all fmt cb0 cs = Inr (cb, ops)"
    have le0: "topn cb0 \<le> k" and len0: "int (length (topk_model cb0)) \<le> topn cb0"
      using t0 m0 pos by simp_all
    from validate_all_counts [OF k0 le0 len0 run]
    have k: "save_topk cb = Some k"
      and tn: "topn cb = min (topn cb0 + int (admissions ops)) k"
      and len: "int (length (topk_model cb)) \<le> topn cb"
      and ev: "int (evictions ops) = topn cb0 + int (admissions ops) - topn cb"
      by blast+
    show "int (length (topk_model cb)) \<le> k" using len tn by simp
    show "topn cb = min (int (admissions ops)) k" using tn t0 by simp
    show "int (evictions ops) = int (admissions ops) - topn cb" using ev t0 by simp
    fix tr res cb' ops'
    assume step: "topn cb = k \<and> do_save_topk fmt cb tr res = Inr (cb', ops')"
    then have full: "\<not> topn cb < k" and ret: "do_save_topk fmt cb tr res = Inr (cb', ops')"
      by simp_all
    from do_save_topk_counts [OF k ret] full
    have r: "topn cb' = topn cb \<and> topn cb = k \<and> int (length (topk_model cb')) = k
                  \<and> evictions ops' = admissions ops' \<and> admissions ops' \<le> 1"
      by simp
    show "evictions ops' = admissions ops'" using r by blast
    show "admissions ops' \<le> 1" using r by blast
    show "int (length (topk_model cb')) = k" using r by blast
    show "topn cb' = k" using r by simp
  }
  assume d: "distinct (map (candidate_folder fmt (cfg_variant c)) cs)"
  have inv0: "retention_inv k cb0 []"
    by (rule init_retention_inv [OF assms])
  have d': "distinct (map (candidate_folder fmt (variant cb0)) cs)"
    unfolding v0 by (rule d)
  have e0: "fst ` set (topk_model cb0) \<inter> candidate_folder fmt (variant cb0) ` set cs = {}"
    by (simp add: m0)
  from validate_all_retention [OF inv0 d' e0]
  show "\<exists>cb ops. validate_all fmt cb0 cs = Inr (cb, ops)" by blast
qed

theorem topk_counts_witness:
  "init disk settings = Inr (manager, [Mkdir ''/ckpt/2022-04-01''])
   \<and> cfg_save_topk settings = Some 2
   \<and> distinct (map (candidate_folder show_metric (cfg_variant settings)) validations)
   \<and> (\<exists>cb ops cb' ops'. validate_all show_metric manager validations = Inr (cb, ops)
         \<and> map fst (topk_model cb)
             = [''model-epoch_1-batch_20-acc_7'', ''model-epoch_1-batch_40-acc_9'']
         \<and> admissions ops = 4 \<and> evictions ops = 2 \<and> topn cb = 2
         \<and> int (length (topk_model cb)) \<le> 2
         \<and> topn cb = min (int (admissions ops)) 2
         \<and> int (evictions ops) = int (admissions ops) - topn cb
         \<and> do_save_topk show_metric cb (counters 1 50) (''acc'', Plain 8) = Inr (cb', ops')
         \<and> admissions ops' = 1 \<and> evictions ops' = 1
         \<and> int (length (topk_model cb')) = 2 \<and> topn cb' = 2)"
proof -
  note t = topk_counts [OF init_settings settings_topk(1), of show_metric validations]
  from t validations_distinct
  obtain cb ops where run: "validate_all show_metric manager validations = Inr (cb, ops)"
    by blast
  with t have inv: "int (length (topk_model cb)) \<le> 2"
    "topn cb = min (int (admissions ops)) 2"
    "int (evictions ops) = int (admissions ops) - topn cb"
    and step: "\<forall>tr res cb' ops'.
                  topn cb = 2 \<and> do_save_topk show_metric cb tr res = Inr (cb', ops') \<longrightarrow>
                    evictions ops' = admissions ops' \<and> admissions ops' \<le> 1
                    \<and> int (length (topk_model cb')) = 2 \<and> topn cb' = 2"
    by blast+
  have ev: "map_sum id (\<lambda>r. (map fst (topk_model (fst r)), topn (fst r), admissions (snd r),
                evictions (snd r)))
         (validate_all show_metric manager validations)
       = Inr ([''model-epoch_1-batch_20-acc_7'', ''model-epoch_1-batch_40-acc_9''], 2, 4, 2)"
    by code_simp
  from ev have keys: "map fst (topk_model cb)
             = [''model-epoch_1-batch_20-acc_7'', ''model-epoch_1-batch_40-acc_9'']"
    and tn: "topn cb = 2" and adm: "admissions ops = 4" and evi: "evictions ops = 2"
    unfolding run by simp_all
  have nxt: "(case validate_all show_metric manager validations of
                Inl err \<Rightarrow> None
              | Inr r \<Rightarrow> (case do_save_topk show_metric (fst r) (counters 1 50) (''acc'', Plain 8) of
                            Inl err \<Rightarrow> None
                          | Inr r' \<Rightarrow> Some (admissions (snd r')))) = Some 1"
    by code_simp
  from nxt obtain cb' ops'
    where run': "do_save_topk show_metric cb (counters 1 50) (''acc'', Plain 8) = Inr (cb', ops')"
      and adm': "admissions ops' = 1"
    unfolding run by (auto split: sum.splits)
  from step tn run' have r: "evictions ops' = admissions ops'"
    "int (length (topk_model cb')) = 2" "topn cb' = 2"
    by blast+
  from r(1) adm' have evi': "evictions ops' = 1" by simp
  have ex: "\<exists>cb ops cb' ops'. validate_all show_metric manager validations = Inr (cb, ops)
         \<and> map fst (topk_model cb)
             = [''model-epoch_1-batch_20-acc_7'', ''model-epoch_1-batch_40-acc_9'']
         \<and> admissions ops = 4 \<and> evictions ops = 2 \<and> topn cb = 2
         \<and> int (length (topk_model cb)) \<le> 2
         \<and> topn cb = min (int (admissions ops)) 2
         \<and> int (evictions ops) = int (admissions ops) - topn cb
         \<and> do_save_topk show_metric cb (counters 1 50) (''acc'', Plain 8) = Inr (cb', ops')
         \<and> admissions ops' = 1 \<and> evictions ops' = 1
         \<and> int (length (topk_model cb')) = 2 \<and> topn cb' = 2"
  proof (intro exI conjI)
    show "validate_all show_metric manager validations = Inr (cb, ops)" by (rule run)
    show "map fst (topk_model cb)
             = [''model-epoch_1-batch_20-acc_7'', ''model-epoch_1-batch_40-acc_9'']"
      by (rule keys)
    show "admissions ops = 4" by (rule adm)
    show "evictions ops = 2" by (rule evi)
    show "topn cb = 2" by (rule tn)
    show "int (length (topk_model cb)) \<le> 2" by (rule inv(1))
    show "topn cb = min (int (admissions ops)) 2" by (rule inv(2))
    show "int (evictions ops) = int (admissions ops) - topn cb" by (rule inv(3))
    show "do_save_topk show_metric cb (counters 1 50) (''acc'', Plain 8) = Inr (cb', ops')"
      by (rule run')
    show "admissions ops' = 1" by (rule adm')
    show "evictions ops' = 1" by (rule evi')
    show "int (length (topk_model cb')) = 2" by (rule r(2))
    show "topn cb' = 2" by (rule r(3))
  qed
  from init_settings settings_topk(1) validations_distinct ex show ?thesis
    by (intro conjI)
qed




end
